theory Spec2Isabelle
  imports Complex_Main
begin

section \<open>Numeric conventions\<close>

text \<open>
  The kinetics engine of \<^verbatim>\<open>src/kinetics/Kinetics.cpp\<close> computes with C++ \<^verbatim>\<open>double\<close>.
  A \<^verbatim>\<open>double\<close> is modelled by a \<^typ>\<open>real\<close>: rounding, infinities and NaN are
  not represented. Where the outcome of the program depends on rounding, in the
  comparison of the normalised vectors of the duplicate pass, the operations are
  parameters and nothing is computed in their place. A \<^verbatim>\<open>RealVector\<close> is a list of
  reals; \<^verbatim>\<open>size_t\<close> is taken to be 64 bits wide and is modelled by a natural number with
  the wrap-around written out where it can happen.
\<close>

type_synonym RealVector = "real list"

definition SIZE_MAX :: nat where
  "SIZE_MAX = 2 ^ 64 - 1"

definition size_t_pred :: "nat \<Rightarrow> nat" where
  \<comment> \<open>\<^verbatim>\<open>n - 1\<close> evaluated in \<^verbatim>\<open>size_t\<close> arithmetic\<close>
  "size_t_pred n = (n + SIZE_MAX) mod 2 ^ 64"

definition size_t_of_int :: "int \<Rightarrow> nat" where
  \<comment> \<open>the conversion of an \<^verbatim>\<open>int\<close> to \<^verbatim>\<open>size_t\<close>: an \<^verbatim>\<open>int\<close> is narrower than
      \<^verbatim>\<open>size_t\<close>, so only a negative value changes\<close>
  "size_t_of_int i = (if i < 0 then nat (2 ^ 64 + i) else nat i)"

section \<open>The thermodynamic-state collaborator\<close>

text \<open>
  Only the accessors that \<^verbatim>\<open>Kinetics.cpp\<close> calls are modelled. The element matrix, the
  molecular weights and the dimensionless Gibbs energies are data of the collaborator and
  are taken as they come; \<open>species_g\<close> is what \<^verbatim>\<open>speciesGOverRT\<close> writes for the
  collaborator's current state.
\<close>

record thermodynamics =
  species_names :: "string list"
  element_names :: "string list"
  element_matrix :: "nat \<Rightarrow> nat \<Rightarrow> real"
  species_mw :: "nat \<Rightarrow> real"
  species_g :: "nat \<Rightarrow> real"

definition nSpecies :: "thermodynamics \<Rightarrow> nat" where
  "nSpecies th = length (species_names th)"

definition nElements :: "thermodynamics \<Rightarrow> nat" where
  "nElements th = length (element_names th)"

definition speciesName :: "thermodynamics \<Rightarrow> nat \<Rightarrow> string" where
  "speciesName th k = species_names th ! k"

definition elementName :: "thermodynamics \<Rightarrow> nat \<Rightarrow> string" where
  "elementName th i = element_names th ! i"

definition elementMatrix :: "thermodynamics \<Rightarrow> nat \<Rightarrow> nat \<Rightarrow> real" where
  "elementMatrix th k i = element_matrix th k i"

definition speciesMw :: "thermodynamics \<Rightarrow> nat \<Rightarrow> real" where
  "speciesMw th k = species_mw th k"

definition speciesGOverRT :: "thermodynamics \<Rightarrow> RealVector" where
  "speciesGOverRT th = map (species_g th) [0..<nSpecies th]"

fun index_of :: "'a list \<Rightarrow> 'a \<Rightarrow> nat" where
  "index_of [] x = 0"
| "index_of (y # ys) x = (if x = y then 0 else Suc (index_of ys x))"

text \<open>
  Modelled from the spec: \<^verbatim>\<open>Thermodynamics::speciesIndex\<close> is declared in a header that
  is not among the sources. The spec gives \<^verbatim>\<open>speciesIndex(name) -> index|invalid\<close>, and
  \<^verbatim>\<open>Kinetics::closeReactions\<close> tests the result with \<^verbatim>\<open>< 0\<close>: the position of the name
  in the species list, or \<open>-1\<close>.
\<close>

definition speciesIndex :: "thermodynamics \<Rightarrow> string \<Rightarrow> int" where
  "speciesIndex th nm =
     (if nm \<in> set (species_names th) then int (index_of (species_names th) nm) else - 1)"

section \<open>Reaction records\<close>

text \<open>
  The reactants and products of a \<^verbatim>\<open>Reaction\<close> are \<^verbatim>\<open>multiset<string>\<close>s; each is
  modelled by the list of its elements in iteration order. The rate law is the function
  \<^verbatim>\<open>lnRateCoefficient(T)\<close> it exposes.
\<close>

record reaction =
  reactants :: "string list"
  products :: "string list"
  isReversible :: bool
  isThirdbody :: bool
  efficiencies :: "(string \<times> real) list"
  rateLaw :: "real \<Rightarrow> real"
  formula :: string

text \<open>
  Modelled from the spec: \<^verbatim>\<open>Reaction::reactant\<close> and \<^verbatim>\<open>Reaction::product\<close> are declared
  outside the sources; they give the reactant and the product count of a species name
  in the reaction.
\<close>

definition reactant :: "reaction \<Rightarrow> string \<Rightarrow> real" where
  "reactant r nm = real (count_list (reactants r) nm)"

definition product :: "reaction \<Rightarrow> string \<Rightarrow> real" where
  "product r nm = real (count_list (products r) nm)"

section \<open>Stoichiometry, third-body and rate managers\<close>

text \<open>
  Modelled from the spec: the classes \<^verbatim>\<open>StoichiometryManager\<close>, \<^verbatim>\<open>ThirdbodyManager\<close> and
  \<^verbatim>\<open>RateManager\<close> are not among the sources. A stoichiometry manager holds, for each
  registered reaction index, the species indices of that reaction, a repeated species
  once per repetition. Its operations follow section 4.1 of the spec. The spec gives
  them under its invariant that every stored species index is below the number of
  species. \<^verbatim>\<open>closeReactions\<close> is where they first run on what \<^verbatim>\<open>addReaction\<close> stored: there
  every read is checked against the invariant (\<open>delta_in_range\<close> below), and an engine
  is sealed only when it holds, so the operations are total functions here.
\<close>

type_synonym StoichiometryManager = "(nat \<times> nat list) list"

definition Stoich_addReaction ::
    "nat \<Rightarrow> nat list \<Rightarrow> StoichiometryManager \<Rightarrow> StoichiometryManager" where
  "Stoich_addReaction rxn sps m = m @ [(rxn, sps)]"

definition incrReactions :: "StoichiometryManager \<Rightarrow> RealVector \<Rightarrow> RealVector \<Rightarrow> RealVector" where
  "incrReactions m s r =
     fold (\<lambda>(j, sps) r. r[j := r ! j + sum_list (map (\<lambda>sp. s ! sp) sps)]) m r"

definition decrReactions :: "StoichiometryManager \<Rightarrow> RealVector \<Rightarrow> RealVector \<Rightarrow> RealVector" where
  "decrReactions m s r =
     fold (\<lambda>(j, sps) r. r[j := r ! j - sum_list (map (\<lambda>sp. s ! sp) sps)]) m r"

definition multReactions :: "StoichiometryManager \<Rightarrow> RealVector \<Rightarrow> RealVector \<Rightarrow> RealVector" where
  "multReactions m c r =
     fold (\<lambda>(j, sps) r. r[j := r ! j * prod_list (map (\<lambda>sp. c ! sp) sps)]) m r"

definition incrSpecies :: "StoichiometryManager \<Rightarrow> RealVector \<Rightarrow> RealVector \<Rightarrow> RealVector" where
  "incrSpecies m rv s =
     fold (\<lambda>(j, sps) s. fold (\<lambda>sp s. s[sp := s ! sp + rv ! j]) sps s) m s"

definition decrSpecies :: "StoichiometryManager \<Rightarrow> RealVector \<Rightarrow> RealVector \<Rightarrow> RealVector" where
  "decrSpecies m rv s =
     fold (\<lambda>(j, sps) s. fold (\<lambda>sp s. s[sp := s ! sp - rv ! j]) sps s) m s"

text \<open>
  A third-body manager holds, for each third-body reaction, a sparse list of
  (species index, efficiency); a species that is not listed has efficiency 1
  (section 4.2 of the spec).
\<close>

type_synonym ThirdbodyManager = "(nat \<times> (nat \<times> real) list) list"

definition Thirdbody_addReaction ::
    "nat \<Rightarrow> (nat \<times> real) list \<Rightarrow> ThirdbodyManager \<Rightarrow> ThirdbodyManager" where
  "Thirdbody_addReaction rxn effs m = m @ [(rxn, effs)]"

definition efficiency :: "(nat \<times> real) list \<Rightarrow> nat \<Rightarrow> real" where
  "efficiency effs k = (case map_of effs k of Some e \<Rightarrow> e | None \<Rightarrow> 1)"

definition thirdbody_conc :: "(nat \<times> real) list \<Rightarrow> RealVector \<Rightarrow> real" where
  "thirdbody_conc effs c = sum_list (map (\<lambda>k. efficiency effs k * c ! k) [0..<length c])"

definition multiplyThirdbodies :: "ThirdbodyManager \<Rightarrow> RealVector \<Rightarrow> RealVector \<Rightarrow> RealVector" where
  "multiplyThirdbodies m c r =
     fold (\<lambda>(j, effs) r. r[j := r ! j * thirdbody_conc effs c]) m r"

text \<open>
  A rate manager holds one rate law for each reaction and fills one log rate for each
  (section 4.3 of the spec).
\<close>

type_synonym RateManager = "(nat \<times> (real \<Rightarrow> real)) list"

definition addRateCoefficient :: "nat \<Rightarrow> (real \<Rightarrow> real) \<Rightarrow> RateManager \<Rightarrow> RateManager" where
  "addRateCoefficient rxn law m = m @ [(rxn, law)]"

definition lnForwardRateCoefficients :: "RateManager \<Rightarrow> real \<Rightarrow> RealVector \<Rightarrow> RealVector" where
  "lnForwardRateCoefficients m T lnkf = fold (\<lambda>(j, law) v. v[j := law T]) m lnkf"

section \<open>The kinetics engine\<close>

text \<open>
  The members of \<^verbatim>\<open>class Kinetics\<close> that \<^verbatim>\<open>Kinetics.cpp\<close> reads and writes. The Jacobian
  manager is left out: its class is not among the sources and it shares no state with
  the rest. The constructor's initialiser list does not mention \<^verbatim>\<open>m_T_last\<close>, so its
  first value is whatever the caller of \<open>Kinetics_init\<close> supplies.
\<close>

record kinetics =
  m_num_rxns :: nat
  m_thermo :: thermodynamics
  m_reactions :: "reaction list"
  m_reactants :: StoichiometryManager
  m_rev_prods :: StoichiometryManager
  m_irr_prods :: StoichiometryManager
  m_thirdbodies :: ThirdbodyManager
  m_rates :: RateManager
  m_dnu :: RealVector
  m_lnkf :: RealVector
  m_lnkeq :: RealVector
  m_ropf :: RealVector
  m_ropb :: RealVector
  m_rop :: RealVector
  mp_g :: RealVector
  m_T_last :: real

definition Kinetics_init :: "thermodynamics \<Rightarrow> real \<Rightarrow> kinetics" where
  "Kinetics_init th T0 =
     \<lparr> m_num_rxns = 0, m_thermo = th, m_reactions = [],
       m_reactants = [], m_rev_prods = [], m_irr_prods = [],
       m_thirdbodies = [], m_rates = [],
       m_dnu = [], m_lnkf = [], m_lnkeq = [], m_ropf = [], m_ropb = [], m_rop = [],
       mp_g = [], m_T_last = T0 \<rparr>"

definition speciesIndices :: "thermodynamics \<Rightarrow> string list \<Rightarrow> nat list" where
  "speciesIndices th names = map (\<lambda>nm. size_t_of_int (speciesIndex th nm)) names"

definition thirdbodyEffs :: "thermodynamics \<Rightarrow> (string \<times> real) list \<Rightarrow> (nat \<times> real) list" where
  "thirdbodyEffs th string_effs =
     map (\<lambda>(nm, e). (size_t_of_int (speciesIndex th nm), e)) string_effs"

definition addReaction :: "reaction \<Rightarrow> kinetics \<Rightarrow> kinetics" where
  "addReaction rx k =
     (let n = m_num_rxns k; th = m_thermo k in
      k \<lparr> m_reactions := m_reactions k @ [rx],
          m_reactants := Stoich_addReaction n (speciesIndices th (reactants rx)) (m_reactants k),
          m_rev_prods :=
            (if isReversible rx
             then Stoich_addReaction n (speciesIndices th (products rx)) (m_rev_prods k)
             else m_rev_prods k),
          m_irr_prods :=
            (if isReversible rx
             then m_irr_prods k
             else Stoich_addReaction n (speciesIndices th (products rx)) (m_irr_prods k)),
          m_thirdbodies :=
            (if isThirdbody rx
             then Thirdbody_addReaction n (thirdbodyEffs th (efficiencies rx)) (m_thirdbodies k)
             else m_thirdbodies k),
          m_rates := addRateCoefficient n (rateLaw rx) (m_rates k),
          m_num_rxns := n + 1 \<rparr>)"

text \<open>
  The constructor adds the reactions of the mechanism file one by one, in file order.
\<close>

definition load :: "thermodynamics \<Rightarrow> real \<Rightarrow> reaction list \<Rightarrow> kinetics" where
  "load th T0 rs = fold addReaction rs (Kinetics_init th T0)"

definition getReactionDelta :: "kinetics \<Rightarrow> RealVector \<Rightarrow> RealVector \<Rightarrow> RealVector" where
  "getReactionDelta k s r =
     incrReactions (m_irr_prods k) s
       (incrReactions (m_rev_prods k) s
         (decrReactions (m_reactants k) s (replicate (length r) 0)))"

subsection \<open>Validation\<close>

text \<open>
  Each line that \<^verbatim>\<open>closeReactions\<close> writes to \<^verbatim>\<open>cerr\<close> is a diagnostic; it carries what
  the line prints (reaction numbers are printed one-based).
\<close>

datatype diagnostic =
    SpeciesMissing nat string string
  | ThirdbodyMissing nat string string
  | ReactionsIdentical nat string nat string
  | NotConserved nat string string

definition check_species_rxn :: "thermodynamics \<Rightarrow> nat \<Rightarrow> reaction \<Rightarrow> diagnostic list" where
  "check_species_rxn th i rx =
     map (\<lambda>nm. SpeciesMissing (i + 1) (formula rx) nm)
         (filter (\<lambda>nm. speciesIndex th nm < 0) (reactants rx)) @
     map (\<lambda>nm. SpeciesMissing (i + 1) (formula rx) nm)
         (filter (\<lambda>nm. speciesIndex th nm < 0) (products rx)) @
     (if isThirdbody rx
      then map (\<lambda>nm. ThirdbodyMissing (i + 1) (formula rx) nm)
             (filter (\<lambda>nm. speciesIndex th nm < 0) (map fst (efficiencies rx)))
      else [])"

definition check_species :: "kinetics \<Rightarrow> diagnostic list" where
  "check_species k =
     concat (map (\<lambda>i. check_species_rxn (m_thermo k) i (m_reactions k ! i))
                 [0..<m_num_rxns k])"

text \<open>
  \<^verbatim>\<open>Vector::normalize\<close> and \<^verbatim>\<open>Vector::operator==\<close> belong to the numerics library, which
  is not among the sources, and what they return is decided by rounded double
  arithmetic. They are taken as they come: the duplicate pass is given the two
  operations, and nothing is assumed about them.
\<close>

record vector_ops =
  normalize_op :: "RealVector \<Rightarrow> RealVector"
  equal_op :: "RealVector \<Rightarrow> RealVector \<Rightarrow> bool"

definition rxn_at :: "reaction list \<Rightarrow> nat \<Rightarrow> reaction option" where
  \<comment> \<open>\<^verbatim>\<open>m_reactions[i]\<close>; \<open>None\<close> is a read outside the vector\<close>
  "rxn_at rs i = (if i < length rs then Some (rs ! i) else None)"

definition stoich_vec :: "thermodynamics \<Rightarrow> reaction \<Rightarrow> RealVector" where
  \<comment> \<open>the net stoichiometric vector: product count minus reactant count of each species\<close>
  "stoich_vec th rx =
     map (\<lambda>k. product rx (speciesName th k) - reactant rx (speciesName th k)) [0..<nSpecies th]"

definition stoich_row :: "thermodynamics \<Rightarrow> reaction list \<Rightarrow> nat \<Rightarrow> RealVector option" where
  \<comment> \<open>the loop over \<open>k\<close> that fills \<^verbatim>\<open>stoichi\<close> or \<^verbatim>\<open>stoichj\<close>; it reads
      \<^verbatim>\<open>m_reactions[i]\<close> once for each species, so not at all without species\<close>
  "stoich_row th rs i =
     (if nSpecies th = 0 then Some []
      else case rxn_at rs i of
             None \<Rightarrow> None
           | Some rx \<Rightarrow> Some (stoich_vec th rx))"

definition dup_inner_step ::
    "vector_ops \<Rightarrow> thermodynamics \<Rightarrow> reaction list \<Rightarrow> RealVector \<Rightarrow> nat \<Rightarrow> nat \<Rightarrow>
     diagnostic list option \<Rightarrow> diagnostic list option" where
  "dup_inner_step vo th rs stoichi i j acc =
     (case acc of
        None \<Rightarrow> None
      | Some ds \<Rightarrow>
          (case stoich_row th rs j of
             None \<Rightarrow> None
           | Some vj \<Rightarrow>
               if equal_op vo stoichi (normalize_op vo vj)
               then (case (rxn_at rs i, rxn_at rs j) of
                       (Some ri, Some rj) \<Rightarrow>
                         Some (ds @ [ReactionsIdentical (i + 1) (formula ri) (j + 1) (formula rj)])
                     | _ \<Rightarrow> None)
               else Some ds))"

definition dup_outer_step ::
    "vector_ops \<Rightarrow> thermodynamics \<Rightarrow> reaction list \<Rightarrow> nat \<Rightarrow> nat \<Rightarrow>
     diagnostic list option \<Rightarrow> diagnostic list option" where
  "dup_outer_step vo th rs n i acc =
     (case acc of
        None \<Rightarrow> None
      | Some ds \<Rightarrow>
          (case stoich_row th rs i of
             None \<Rightarrow> None
           | Some vi \<Rightarrow>
               fold (dup_inner_step vo th rs (normalize_op vo vi) i) [i + 1..<n] (Some ds)))"

definition check_duplicates :: "vector_ops \<Rightarrow> kinetics \<Rightarrow> diagnostic list option" where
  \<comment> \<open>\<open>None\<close>: the pass read \<^verbatim>\<open>m_reactions\<close> outside its bounds\<close>
  "check_duplicates vo k =
     fold (dup_outer_step vo (m_thermo k) (m_reactions k) (m_num_rxns k))
          [0..<size_t_pred (m_num_rxns k)] (Some [])"

text \<open>
  \<^verbatim>\<open>getReactionDelta\<close> reads its species vector at every species index that the three
  stoichiometry managers hold. \<^verbatim>\<open>addReaction\<close> stores the index \<^verbatim>\<open>(size_t)-1\<close> for a name
  that the mixture does not have, and nothing removes it: an index that is not below the
  size of the species vector is a read outside that vector.
\<close>

definition species_in_range :: "StoichiometryManager \<Rightarrow> nat \<Rightarrow> bool" where
  "species_in_range m ns = list_all (\<lambda>(j, sps). list_all (\<lambda>sp. sp < ns) sps) m"

definition delta_in_range :: "kinetics \<Rightarrow> nat \<Rightarrow> bool" where
  "delta_in_range k ns =
     (species_in_range (m_reactants k) ns \<and> species_in_range (m_rev_prods k) ns \<and>
      species_in_range (m_irr_prods k) ns)"

definition check_conservation_elem :: "kinetics \<Rightarrow> nat \<Rightarrow> diagnostic list option" where
  \<comment> \<open>one round of the loop over the elements; \<open>None\<close>: \<^verbatim>\<open>getReactionDelta\<close> read the
      species vector outside its bounds\<close>
  "check_conservation_elem k i =
     (let th = m_thermo k;
          stoichi = map (\<lambda>s. elementMatrix th s i) [0..<nSpecies th]
      in if delta_in_range k (length stoichi)
         then (let mass = getReactionDelta k stoichi (replicate (m_num_rxns k) 0)
               in Some (map (\<lambda>j. NotConserved (j + 1) (formula (m_reactions k ! j))
                                    (elementName th i))
                          (filter (\<lambda>j. mass ! j \<noteq> 0) [0..<m_num_rxns k])))
         else None)"

definition check_conservation_step ::
    "kinetics \<Rightarrow> nat \<Rightarrow> diagnostic list option \<Rightarrow> diagnostic list option" where
  "check_conservation_step k i acc =
     (case acc of
        None \<Rightarrow> None
      | Some ds \<Rightarrow>
          (case check_conservation_elem k i of
             None \<Rightarrow> None
           | Some d \<Rightarrow> Some (ds @ d)))"

definition check_conservation :: "kinetics \<Rightarrow> diagnostic list option" where
  "check_conservation k =
     fold (check_conservation_step k) [0..<nElements (m_thermo k)] (Some [])"

definition validate :: "vector_ops \<Rightarrow> kinetics \<Rightarrow> diagnostic list option" where
  \<comment> \<open>the three passes in the order of the code; \<open>None\<close>: a pass read outside a vector\<close>
  "validate vo k =
     (case check_duplicates vo k of
        None \<Rightarrow> None
      | Some dups \<Rightarrow>
          (case check_conservation k of
             None \<Rightarrow> None
           | Some cons \<Rightarrow> Some (check_species k @ dups @ cons)))"

subsection \<open>Sealing\<close>

text \<open>
  \<^verbatim>\<open>closeReactions\<close> either returns with the work arrays allocated, or leaves the process
  through \<^verbatim>\<open>exit(1)\<close> after the diagnostics, or reads outside a vector: outside
  \<^verbatim>\<open>m_reactions\<close> in the duplicate pass, outside the species vector in a call of
  \<^verbatim>\<open>getReactionDelta\<close>. New vectors are taken to be zero-filled.
\<close>

datatype close_result =
    Sealed kinetics
  | ValidationFailed "diagnostic list"
  | OutOfBounds

definition seal :: "kinetics \<Rightarrow> kinetics" where
  \<comment> \<open>what \<^verbatim>\<open>closeReactions\<close> writes after the validation block\<close>
  "seal k =
     (let ns = nSpecies (m_thermo k); n = m_num_rxns k in
      k \<lparr> m_dnu := getReactionDelta k (replicate ns 1) (replicate n 0),
          mp_g := replicate ns 0,
          m_lnkf := replicate n 0,
          m_lnkeq := replicate n 0,
          m_ropf := replicate n 0,
          m_ropb := replicate n 0,
          m_rop := replicate n 0 \<rparr>)"

definition compute_dnu :: "kinetics \<Rightarrow> close_result" where
  \<comment> \<open>the part of \<^verbatim>\<open>closeReactions\<close> after the validation block, with the reads of
      \<^verbatim>\<open>getReactionDelta\<close> checked\<close>
  "compute_dnu k =
     (if delta_in_range k (nSpecies (m_thermo k)) then Sealed (seal k) else OutOfBounds)"

definition closeReactions :: "vector_ops \<Rightarrow> bool \<Rightarrow> kinetics \<Rightarrow> close_result" where
  "closeReactions vo validate_mechanism k =
     (if validate_mechanism
      then (case validate vo k of
              None \<Rightarrow> OutOfBounds
            | Some ds \<Rightarrow> if ds \<noteq> [] then ValidationFailed ds else compute_dnu k)
      else compute_dnu k)"

subsection \<open>Evaluation\<close>

text \<open>
  The universal gas constant \<^verbatim>\<open>RU\<close> comes from \<^verbatim>\<open>Constants.h\<close>, which is not among the
  sources; it is a parameter \<open>RU\<close> of every function that reaches \<^verbatim>\<open>updateT\<close>. Each method
  returns what it writes to its output argument together with the engine afterwards.
\<close>

definition updateT :: "real \<Rightarrow> real \<Rightarrow> kinetics \<Rightarrow> kinetics" where
  "updateT RU T k =
     (if \<bar>T - m_T_last k\<bar> < 1 / 10 ^ 6 then k
      else
        (let lnkf = lnForwardRateCoefficients (m_rates k) T (m_lnkf k);
             g = speciesGOverRT (m_thermo k);
             lnkeq0 = map (\<lambda>d. d * ln (101325 / (RU * T))) (m_dnu k);
             lnkeq = decrReactions (m_irr_prods k) g
                       (decrReactions (m_rev_prods k) g
                         (incrReactions (m_reactants k) g lnkeq0))
         in k \<lparr> m_lnkf := lnkf, m_lnkeq := lnkeq, mp_g := g, m_T_last := T \<rparr>))"

definition equilibriumConstants :: "real \<Rightarrow> real \<Rightarrow> kinetics \<Rightarrow> RealVector \<times> kinetics" where
  "equilibriumConstants RU T k =
     (let k' = updateT RU T k in (map exp (m_lnkeq k'), k'))"

definition forwardRateCoefficients :: "real \<Rightarrow> real \<Rightarrow> kinetics \<Rightarrow> RealVector \<times> kinetics" where
  "forwardRateCoefficients RU T k =
     (let k' = updateT RU T k in (map exp (m_lnkf k'), k'))"

definition backwardRateCoefficients :: "real \<Rightarrow> real \<Rightarrow> kinetics \<Rightarrow> RealVector \<times> kinetics" where
  "backwardRateCoefficients RU T k =
     (let k' = updateT RU T k in (map exp (map2 (-) (m_lnkf k') (m_lnkeq k')), k'))"

definition forwardRatesOfProgress ::
    "real \<Rightarrow> real \<Rightarrow> RealVector \<Rightarrow> kinetics \<Rightarrow> RealVector \<times> kinetics" where
  "forwardRatesOfProgress RU T conc k =
     (let (kf, k') = forwardRateCoefficients RU T k in
      (multiplyThirdbodies (m_thirdbodies k') conc (multReactions (m_reactants k') conc kf), k'))"

definition backwardRatesOfProgress ::
    "real \<Rightarrow> real \<Rightarrow> RealVector \<Rightarrow> kinetics \<Rightarrow> RealVector \<times> kinetics" where
  "backwardRatesOfProgress RU T conc k =
     (let (kb, k') = backwardRateCoefficients RU T k in
      (multiplyThirdbodies (m_thirdbodies k') conc (multReactions (m_rev_prods k') conc kb), k'))"

definition netRatesOfProgress ::
    "real \<Rightarrow> real \<Rightarrow> RealVector \<Rightarrow> kinetics \<Rightarrow> RealVector \<times> kinetics" where
  "netRatesOfProgress RU T conc k =
     (let (kf, k1) = forwardRateCoefficients RU T k;
          k2 = k1 \<lparr> m_ropf := multReactions (m_reactants k1) conc kf \<rparr>;
          (kb, k3) = backwardRateCoefficients RU T k2;
          k4 = k3 \<lparr> m_ropb := multReactions (m_rev_prods k3) conc kb \<rparr>
      in (multiplyThirdbodies (m_thirdbodies k4) conc (map2 (-) (m_ropf k4) (m_ropb k4)), k4))"

definition netProductionRates ::
    "real \<Rightarrow> real \<Rightarrow> RealVector \<Rightarrow> kinetics \<Rightarrow> RealVector \<times> kinetics" where
  "netProductionRates RU T p_conc k =
     (let ns = nSpecies (m_thermo k);
          conc = take ns p_conc;
          (rop, k1) = netRatesOfProgress RU T conc k;
          k2 = k1 \<lparr> m_rop := rop \<rparr>;
          wdot = incrSpecies (m_irr_prods k2) (m_rop k2)
                   (incrSpecies (m_rev_prods k2) (m_rop k2)
                     (decrSpecies (m_reactants k2) (m_rop k2) (replicate ns 0)))
      in (map (\<lambda>i. wdot ! i * speciesMw (m_thermo k2) i) [0..<ns], k2))"

text \<open>
  \<^verbatim>\<open>jacobianRho\<close> hands the two coefficient arrays to the Jacobian manager, whose
  \<^verbatim>\<open>computeJacobian\<close> is the parameter \<open>cj\<close>.
\<close>

definition jacobianRho ::
    "(RealVector \<Rightarrow> RealVector \<Rightarrow> RealVector \<Rightarrow> 'j) \<Rightarrow> real \<Rightarrow> real \<Rightarrow> RealVector \<Rightarrow> kinetics
     \<Rightarrow> 'j \<times> kinetics" where
  "jacobianRho cj RU T p_conc k =
     (let k' = updateT RU T k;
          p_kf = map (\<lambda>i. exp (m_lnkf k' ! i)) [0..<m_num_rxns k'];
          p_kb = map (\<lambda>i. exp (m_lnkf k' ! i - m_lnkeq k' ! i)) [0..<m_num_rxns k']
      in (cj p_kf p_kb p_conc, k'))"


section \<open>Notions used in the statements\<close>

definition entries :: "(nat \<times> 'a list) list \<Rightarrow> nat \<Rightarrow> 'a list" where
  \<comment> \<open>everything a manager holds for reaction \<open>j\<close>\<close>
  "entries m j = concat (map snd (filter (\<lambda>e. fst e = j) m))"

definition species_ok :: "thermodynamics \<Rightarrow> reaction list \<Rightarrow> bool" where
  \<comment> \<open>every reactant and product name is a species of the mixture\<close>
  "species_ok th rs =
     (\<forall>rx \<in> set rs. set (reactants rx) \<union> set (products rx) \<subseteq> set (species_names th))"

text \<open>
  A sealed engine for the mechanism \<open>rs\<close>: the reaction list, the managers and \<open>dnu\<close>
  are those that loading and sealing \<open>rs\<close> over the engine's mixture produce, and the
  two cached vectors have one entry for each reaction.
\<close>

definition sealed_state :: "reaction list \<Rightarrow> kinetics \<Rightarrow> bool" where
  "sealed_state rs k =
     (m_reactions k = rs \<and> m_num_rxns k = length rs \<and>
      m_reactants k = m_reactants (load (m_thermo k) 0 rs) \<and>
      m_rev_prods k = m_rev_prods (load (m_thermo k) 0 rs) \<and>
      m_irr_prods k = m_irr_prods (load (m_thermo k) 0 rs) \<and>
      m_thirdbodies k = m_thirdbodies (load (m_thermo k) 0 rs) \<and>
      m_rates k = m_rates (load (m_thermo k) 0 rs) \<and>
      m_dnu k = m_dnu (seal (load (m_thermo k) 0 rs)) \<and>
      length (m_lnkf k) = length rs \<and> length (m_lnkeq k) = length rs)"

text \<open>The cached rate state: both log vectors and the temperature they belong to.\<close>

definition cached :: "kinetics \<Rightarrow> RealVector \<times> RealVector \<times> real" where
  "cached k = (m_lnkf k, m_lnkeq k, m_T_last k)"

datatype api_method =
    EquilibriumConstants
  | ForwardRateCoefficients
  | BackwardRateCoefficients
  | ForwardRatesOfProgress
  | BackwardRatesOfProgress
  | NetRatesOfProgress
  | NetProductionRates
  | JacobianRho

fun state_after :: "api_method \<Rightarrow> real \<Rightarrow> real \<Rightarrow> RealVector \<Rightarrow> kinetics \<Rightarrow> kinetics" where
  "state_after EquilibriumConstants RU T conc k = snd (equilibriumConstants RU T k)"
| "state_after ForwardRateCoefficients RU T conc k = snd (forwardRateCoefficients RU T k)"
| "state_after BackwardRateCoefficients RU T conc k = snd (backwardRateCoefficients RU T k)"
| "state_after ForwardRatesOfProgress RU T conc k = snd (forwardRatesOfProgress RU T conc k)"
| "state_after BackwardRatesOfProgress RU T conc k = snd (backwardRatesOfProgress RU T conc k)"
| "state_after NetRatesOfProgress RU T conc k = snd (netRatesOfProgress RU T conc k)"
| "state_after NetProductionRates RU T conc k = snd (netProductionRates RU T conc k)"
| "state_after JacobianRho RU T conc k = snd (jacobianRho (\<lambda>kf kb c. ()) RU T conc k)"

text \<open>
  What happens to a sealed engine: the solver calls an evaluation method, or it moves
  the thermodynamic-state collaborator to another state, which changes the Gibbs
  energies that \<^verbatim>\<open>speciesGOverRT\<close> reports and nothing else that the engine reads.
\<close>

datatype event = Call api_method real RealVector | SetState "nat \<Rightarrow> real"

fun step :: "real \<Rightarrow> event \<Rightarrow> kinetics \<Rightarrow> kinetics" where
  "step RU (Call m T conc) k = state_after m RU T conc k"
| "step RU (SetState g) k = k \<lparr> m_thermo := (m_thermo k) \<lparr> species_g := g \<rparr> \<rparr>"

definition run :: "real \<Rightarrow> event list \<Rightarrow> kinetics \<Rightarrow> kinetics" where
  "run RU evs k = fold (step RU) evs k"

text \<open>
  The third-body factor of a reaction: the weighted concentration sum of a
  third-body reaction, and 1 for any other reaction.
\<close>

definition thirdbody_factor :: "thermodynamics \<Rightarrow> reaction \<Rightarrow> RealVector \<Rightarrow> real" where
  "thirdbody_factor th rx c =
     (if isThirdbody rx then thirdbody_conc (thirdbodyEffs th (efficiencies rx)) c else 1)"

text \<open>
  The residual of an element in a reaction: the net stoichiometric vector dotted with
  the element's atom count in each species.
\<close>

definition residual :: "thermodynamics \<Rightarrow> reaction \<Rightarrow> nat \<Rightarrow> real" where
  "residual th rx e =
     sum_list (map (\<lambda>k. (product rx (speciesName th k) - reactant rx (speciesName th k))
                         * elementMatrix th k e) [0..<nSpecies th])"

text \<open>
  The duplicate pairs as the two operations find them, in the order in which the two
  nested loops meet them.
\<close>

definition identical_pair ::
    "vector_ops \<Rightarrow> thermodynamics \<Rightarrow> reaction list \<Rightarrow> nat \<Rightarrow> nat \<Rightarrow> bool" where
  "identical_pair vo th rs i j =
     equal_op vo (normalize_op vo (stoich_vec th (rs ! i)))
                 (normalize_op vo (stoich_vec th (rs ! j)))"

definition duplicates_report ::
    "vector_ops \<Rightarrow> thermodynamics \<Rightarrow> reaction list \<Rightarrow> diagnostic list" where
  "duplicates_report vo th rs =
     concat (map (\<lambda>i. concat (map (\<lambda>j.
         if identical_pair vo th rs i j
         then [ReactionsIdentical (i + 1) (formula (rs ! i)) (j + 1) (formula (rs ! j))]
         else []) [i + 1..<length rs])) [0..<length rs - 1])"

text \<open>
  The reactions and elements with a nonzero residual, as \<^verbatim>\<open>getReactionDelta\<close> computes
  it, in the order of the loops of the conservation pass.
\<close>

definition conservation_report_elem :: "kinetics \<Rightarrow> nat \<Rightarrow> diagnostic list" where
  "conservation_report_elem k i =
     (let th = m_thermo k;
          stoichi = map (\<lambda>s. elementMatrix th s i) [0..<nSpecies th];
          mass = getReactionDelta k stoichi (replicate (m_num_rxns k) 0)
      in map (\<lambda>j. NotConserved (j + 1) (formula (m_reactions k ! j)) (elementName th i))
             (filter (\<lambda>j. mass ! j \<noteq> 0) [0..<m_num_rxns k]))"

definition conservation_report :: "kinetics \<Rightarrow> diagnostic list" where
  "conservation_report k =
     concat (map (conservation_report_elem k) [0..<nElements (m_thermo k)])"

subsection \<open>A small mechanism: the dissociation of nitrogen\<close>

definition th_N :: thermodynamics where
  "th_N = \<lparr> species_names = [''N2'', ''N''], element_names = [''N''],
            element_matrix = (\<lambda>k e. if k = 0 then 2 else 1),
            species_mw = (\<lambda>k. if k = 0 then 28 else 14),
            species_g = (\<lambda>k. 0) \<rparr>"

definition rx_N :: reaction where
  "rx_N = \<lparr> reactants = [''N2''], products = [''N'', ''N''], isReversible = True,
            isThirdbody = False, efficiencies = [], rateLaw = (\<lambda>T. 0),
            formula = ''N2 = 2N'' \<rparr>"

definition RU_ex :: real where
  \<comment> \<open>a value of the gas constant for the examples\<close>
  "RU_ex = 8.314472"

definition rx_N_irr :: reaction where
  "rx_N_irr = rx_N \<lparr> isReversible := False, formula := ''N2 => 2N'' \<rparr>"

definition k_N :: kinetics where
  \<comment> \<open>the sealed engine of the one-reaction mechanism; its first \<open>T_last\<close> is 0\<close>
  "k_N = seal (load th_N 0 [rx_N])"

definition k_N_irr :: kinetics where
  \<comment> \<open>the same mechanism with its reaction marked irreversible\<close>
  "k_N_irr = seal (load th_N 0 [rx_N_irr])"

text \<open>Everything the three checks report, in the order in which it is printed.\<close>

definition validation_report ::
    "vector_ops \<Rightarrow> thermodynamics \<Rightarrow> real \<Rightarrow> reaction list \<Rightarrow> diagnostic list" where
  "validation_report vo th T0 rs =
     check_species (load th T0 rs) @ duplicates_report vo th rs
       @ conservation_report (load th T0 rs)"

definition rx_N_bad :: reaction where
  \<comment> \<open>a reaction that loses a nitrogen atom\<close>
  "rx_N_bad = rx_N \<lparr> products := [''N''], formula := ''N2 = N'' \<rparr>"

definition rx_N_O :: reaction where
  \<comment> \<open>a reaction whose product is not a species of the mixture\<close>
  "rx_N_O = rx_N \<lparr> products := [''O'', ''O''], formula := ''N2 = 2O'' \<rparr>"

text \<open>
  The two vector operations computed without rounding, for the examples. On two equal
  vectors of nonzero length every implementation that computes the same result from
  the same input gives the verdict they give, and the examples compare nothing else.
\<close>

definition norm2 :: "RealVector \<Rightarrow> real" where
  "norm2 v = sqrt (sum_list (map (\<lambda>x. x * x) v))"

definition unrounded_ops :: vector_ops where
  "unrounded_ops = \<lparr> normalize_op = (\<lambda>v. map (\<lambda>x. x / norm2 v) v), equal_op = (=) \<rparr>"

definition mech_bad :: "reaction list" where
  \<comment> \<open>a mechanism with two problems: its first reaction does not conserve nitrogen,
      and its second and third reactions are the same\<close>
  "mech_bad = [rx_N_bad, rx_N, rx_N]"

section \<open>Size arithmetic and the managers' operations in closed form\<close>


lemma size_t_pred_pos: "0 < n \<Longrightarrow> n < 2 ^ 64 \<Longrightarrow> size_t_pred n = n - 1"
proof -
  assume "0 < n" "n < 2 ^ 64"
  then obtain m where m: "n = Suc m" "m < 2 ^ 64" by (cases n) auto
  have "n + SIZE_MAX = m + 2 ^ 64" by (simp add: m SIZE_MAX_def)
  then have "size_t_pred n = (m + 2 ^ 64) mod 2 ^ 64" by (simp only: size_t_pred_def)
  also have "\<dots> = m" using m by simp
  finally show ?thesis using m by simp
qed

lemma size_t_pred_0: "size_t_pred 0 = 2 ^ 64 - 1"
  by (simp add: size_t_pred_def SIZE_MAX_def)


lemma entries_Nil [simp]: "entries [] j = []" by (simp add: entries_def)
lemma entries_Cons [simp]: "entries ((i, sps) # m) j = (if i = j then sps @ entries m j else entries m j)"
  by (simp add: entries_def)
lemma entries_append [simp]: "entries (m @ m') j = entries m j @ entries m' j"
  by (simp add: entries_def)

lemma length_incrReactions [simp]: "length (incrReactions m s r) = length r"
  unfolding incrReactions_def by (induction m arbitrary: r) auto
lemma length_decrReactions [simp]: "length (decrReactions m s r) = length r"
  unfolding decrReactions_def by (induction m arbitrary: r) auto
lemma length_multReactions [simp]: "length (multReactions m s r) = length r"
  unfolding multReactions_def by (induction m arbitrary: r) auto

lemma nth_incrReactions:
  "j < length r \<Longrightarrow> incrReactions m s r ! j = r ! j + sum_list (map (\<lambda>sp. s ! sp) (entries m j))"
  unfolding incrReactions_def
  by (induction m arbitrary: r) (auto simp: nth_list_update)

lemma nth_decrReactions:
  "j < length r \<Longrightarrow> decrReactions m s r ! j = r ! j - sum_list (map (\<lambda>sp. s ! sp) (entries m j))"
  unfolding decrReactions_def
  by (induction m arbitrary: r) (auto simp: nth_list_update)

lemma nth_multReactions:
  "j < length r \<Longrightarrow> multReactions m c r ! j = r ! j * prod_list (map (\<lambda>sp. c ! sp) (entries m j))"
  unfolding multReactions_def
  by (induction m arbitrary: r) (auto simp: nth_list_update)

lemma length_scatter_add [simp]: "length (fold (\<lambda>sp s. s[sp := s ! sp + x]) sps s) = length s"
  by (induction sps arbitrary: s) auto
lemma length_scatter_sub [simp]: "length (fold (\<lambda>sp s. s[sp := s ! sp - x]) sps s) = length (s::real list)"
  by (induction sps arbitrary: s) auto

lemma nth_scatter_add:
  "k < length s \<Longrightarrow> fold (\<lambda>sp s. s[sp := s ! sp + x]) sps s ! k = s ! k + real (count_list sps k) * x"
  by (induction sps arbitrary: s) (auto simp: nth_list_update algebra_simps)
lemma nth_scatter_sub:
  "k < length s \<Longrightarrow> fold (\<lambda>sp s. s[sp := s ! sp - x]) sps s ! k = s ! k - real (count_list sps k) * x"
  by (induction sps arbitrary: s) (auto simp: nth_list_update algebra_simps)

lemma length_incrSpecies [simp]: "length (incrSpecies m rv s) = length s"
  unfolding incrSpecies_def by (induction m arbitrary: s) auto
lemma length_decrSpecies [simp]: "length (decrSpecies m rv s) = length s"
  unfolding decrSpecies_def by (induction m arbitrary: s) auto

lemma nth_incrSpecies:
  "k < length s \<Longrightarrow> incrSpecies m rv s ! k =
     s ! k + sum_list (map (\<lambda>(j, sps). real (count_list sps k) * rv ! j) m)"
  unfolding incrSpecies_def
  by (induction m arbitrary: s) (auto simp: nth_scatter_add)
lemma nth_decrSpecies:
  "k < length s \<Longrightarrow> decrSpecies m rv s ! k =
     s ! k - sum_list (map (\<lambda>(j, sps). real (count_list sps k) * rv ! j) m)"
  unfolding decrSpecies_def
  by (induction m arbitrary: s) (auto simp: nth_scatter_sub)

lemma length_multiplyThirdbodies [simp]: "length (multiplyThirdbodies m c r) = length r"
  unfolding multiplyThirdbodies_def by (induction m arbitrary: r) auto

lemma nth_multiplyThirdbodies:
  "j < length r \<Longrightarrow> multiplyThirdbodies m c r ! j =
     r ! j * prod_list (map (\<lambda>effs. thirdbody_conc effs c) (map snd (filter (\<lambda>e. fst e = j) m)))"
  unfolding multiplyThirdbodies_def
  by (induction m arbitrary: r) (auto simp: nth_list_update)

lemma length_lnForwardRateCoefficients [simp]: "length (lnForwardRateCoefficients m T v) = length v"
  unfolding lnForwardRateCoefficients_def by (induction m arbitrary: v) auto


lemma load_snoc: "load th T0 (rs @ [rx]) = addReaction rx (load th T0 rs)"
  by (simp add: load_def)

lemma load_Nil: "load th T0 [] = Kinetics_init th T0"
  by (simp add: load_def)

lemma load_basic:
  "m_thermo (load th T0 rs) = th \<and> m_reactions (load th T0 rs) = rs \<and>
   m_num_rxns (load th T0 rs) = length rs \<and> m_T_last (load th T0 rs) = T0"
  by (induction rs rule: rev_induct)
     (simp_all add: load_Nil Kinetics_init_def load_snoc addReaction_def Let_def)

lemmas load_thermo [simp] = load_basic [THEN conjunct1]
lemmas load_reactions [simp] = load_basic [THEN conjunct2, THEN conjunct1]
lemmas load_num_rxns [simp] = load_basic [THEN conjunct2, THEN conjunct2, THEN conjunct1]
lemmas load_T_last [simp] = load_basic [THEN conjunct2, THEN conjunct2, THEN conjunct2]

lemma load_reactants [simp]:
  "entries (m_reactants (load th T0 rs)) j =
     (if j < length rs then speciesIndices th (reactants (rs ! j)) else [])"
  by (induction rs rule: rev_induct)
     (auto simp: load_Nil Kinetics_init_def load_snoc addReaction_def Let_def
        Stoich_addReaction_def nth_append)

lemma load_rev_prods [simp]:
  "entries (m_rev_prods (load th T0 rs)) j =
     (if j < length rs \<and> isReversible (rs ! j) then speciesIndices th (products (rs ! j)) else [])"
  by (induction rs rule: rev_induct)
     (auto simp: load_Nil Kinetics_init_def load_snoc addReaction_def Let_def
        Stoich_addReaction_def nth_append)

lemma load_irr_prods [simp]:
  "entries (m_irr_prods (load th T0 rs)) j =
     (if j < length rs \<and> \<not> isReversible (rs ! j) then speciesIndices th (products (rs ! j)) else [])"
  by (induction rs rule: rev_induct)
     (auto simp: load_Nil Kinetics_init_def load_snoc addReaction_def Let_def
        Stoich_addReaction_def nth_append)

lemma load_thirdbodies [simp]:
  "map snd (filter (\<lambda>e. fst e = j) (m_thirdbodies (load th T0 rs))) =
     (if j < length rs \<and> isThirdbody (rs ! j)
      then [thirdbodyEffs th (efficiencies (rs ! j))] else [])"
  by (induction rs rule: rev_induct)
     (auto simp: load_Nil Kinetics_init_def load_snoc addReaction_def Let_def
        Thirdbody_addReaction_def nth_append)

lemma lnForwardRateCoefficients_snoc:
  "lnForwardRateCoefficients (m @ [(n, law)]) T v = (lnForwardRateCoefficients m T v)[n := law T]"
  by (simp add: lnForwardRateCoefficients_def)

lemma load_rates:
  "j < length v \<Longrightarrow> lnForwardRateCoefficients (m_rates (load th T0 rs)) T v ! j =
     (if j < length rs then rateLaw (rs ! j) T else v ! j)"
  by (induction rs rule: rev_induct)
     (auto simp: load_Nil Kinetics_init_def load_snoc addReaction_def Let_def
        addRateCoefficient_def nth_append lnForwardRateCoefficients_snoc nth_list_update
        lnForwardRateCoefficients_def [of "[]"])



section \<open>Sealed engines\<close>


lemma load_T0: "load th T0 rs = (load th 0 rs) \<lparr> m_T_last := T0 \<rparr>"
  by (induction rs rule: rev_induct)
     (simp_all add: load_Nil Kinetics_init_def load_snoc addReaction_def Let_def)

lemma load_managers_T0:
  "m_reactants (load th T0 rs) = m_reactants (load th 0 rs)"
  "m_rev_prods (load th T0 rs) = m_rev_prods (load th 0 rs)"
  "m_irr_prods (load th T0 rs) = m_irr_prods (load th 0 rs)"
  "m_thirdbodies (load th T0 rs) = m_thirdbodies (load th 0 rs)"
  "m_rates (load th T0 rs) = m_rates (load th 0 rs)"
  by (simp_all add: load_T0 [of th T0 rs])

lemma getReactionDelta_T0:
  "getReactionDelta (load th T0 rs) s r = getReactionDelta (load th 0 rs) s r"
  by (simp add: getReactionDelta_def load_managers_T0 [of th T0 rs])

lemma sealed_state_seal: "sealed_state rs (seal (load th T0 rs))"
  by (simp add: sealed_state_def seal_def Let_def load_managers_T0 [of th T0 rs]
        getReactionDelta_T0 [of th T0 rs])

lemma closeReactions_Sealed:
  "closeReactions vo v k = Sealed k' \<Longrightarrow> k' = seal k"
  by (auto simp: closeReactions_def compute_dnu_def split: if_splits option.splits)

lemma sealed_state_closeReactions:
  "closeReactions vo v (load th T0 rs) = Sealed k \<Longrightarrow> sealed_state rs k"
  by (auto dest!: closeReactions_Sealed simp: sealed_state_seal)

lemma updateT_static:
  "m_thermo (updateT RU T k) = m_thermo k"
  "m_reactions (updateT RU T k) = m_reactions k"
  "m_num_rxns (updateT RU T k) = m_num_rxns k"
  "m_reactants (updateT RU T k) = m_reactants k"
  "m_rev_prods (updateT RU T k) = m_rev_prods k"
  "m_irr_prods (updateT RU T k) = m_irr_prods k"
  "m_thirdbodies (updateT RU T k) = m_thirdbodies k"
  "m_rates (updateT RU T k) = m_rates k"
  "m_dnu (updateT RU T k) = m_dnu k"
  by (simp_all add: updateT_def Let_def)

lemma length_seal_dnu: "length (m_dnu (seal k)) = m_num_rxns k"
  by (simp add: seal_def Let_def getReactionDelta_def)

lemma sealed_state_dnu_length: "sealed_state rs k \<Longrightarrow> length (m_dnu k) = length rs"
  by (simp add: sealed_state_def length_seal_dnu)

lemma updateT_lengths:
  "sealed_state rs k \<Longrightarrow>
     length (m_lnkf (updateT RU T k)) = length rs \<and> length (m_lnkeq (updateT RU T k)) = length rs"
  by (frule sealed_state_dnu_length) (simp add: updateT_def Let_def sealed_state_def)

lemma sealed_state_updateT: "sealed_state rs k \<Longrightarrow> sealed_state rs (updateT RU T k)"
  using updateT_lengths [of rs k RU T]
  by (simp add: sealed_state_def updateT_static)

lemma updateT_noop: "\<bar>T - m_T_last k\<bar> < 1 / 10 ^ 6 \<Longrightarrow> updateT RU T k = k"
  by (simp add: updateT_def)

lemma updateT_T_last: "\<not> \<bar>T - m_T_last k\<bar> < 1 / 10 ^ 6 \<Longrightarrow> m_T_last (updateT RU T k) = T"
  by (simp add: updateT_def Let_def)

lemma updateT_idem: "updateT RU T (updateT RU T k) = updateT RU T k"
proof (cases "\<bar>T - m_T_last k\<bar> < 1 / 10 ^ 6")
  case True
  then show ?thesis by (simp add: updateT_noop)
next
  case False
  then have "m_T_last (updateT RU T k) = T" by (rule updateT_T_last)
  then show ?thesis by (simp add: updateT_noop)
qed

lemma updateT_ropf: "updateT RU T (k \<lparr> m_ropf := f \<rparr>) = (updateT RU T k) \<lparr> m_ropf := f \<rparr>"
  by (simp add: updateT_def Let_def)

lemma netRatesOfProgress_state:
  "snd (netRatesOfProgress RU T conc k) =
     (updateT RU T k) \<lparr> m_ropf := m_ropf (snd (netRatesOfProgress RU T conc k)),
                         m_ropb := m_ropb (snd (netRatesOfProgress RU T conc k)) \<rparr>"
  by (simp add: netRatesOfProgress_def forwardRateCoefficients_def
        backwardRateCoefficients_def Let_def updateT_ropf updateT_idem split: prod.splits)

lemma state_after_fields:
  "cached (state_after m RU T conc k) = cached (updateT RU T k)"
  "m_thermo (state_after m RU T conc k) = m_thermo k"
  "m_reactions (state_after m RU T conc k) = m_reactions k"
  "m_num_rxns (state_after m RU T conc k) = m_num_rxns k"
  "m_reactants (state_after m RU T conc k) = m_reactants k"
  "m_rev_prods (state_after m RU T conc k) = m_rev_prods k"
  "m_irr_prods (state_after m RU T conc k) = m_irr_prods k"
  "m_thirdbodies (state_after m RU T conc k) = m_thirdbodies k"
  "m_rates (state_after m RU T conc k) = m_rates k"
  "m_dnu (state_after m RU T conc k) = m_dnu k"
  by (cases m;
      simp add: equilibriumConstants_def forwardRateCoefficients_def backwardRateCoefficients_def
        forwardRatesOfProgress_def backwardRatesOfProgress_def netRatesOfProgress_def
        netProductionRates_def jacobianRho_def Let_def updateT_ropf updateT_idem
        updateT_static cached_def split: prod.splits)+

lemma sealed_state_after:
  "sealed_state rs k \<Longrightarrow> sealed_state rs (state_after m RU T conc k)"
  using state_after_fields [of m RU T conc k] updateT_lengths [of rs k RU T]
  by (simp add: sealed_state_def cached_def)

lemma speciesIndex_setState [simp]: "speciesIndex (th \<lparr> species_g := g \<rparr>) = speciesIndex th"
  by (rule ext) (simp add: speciesIndex_def)

lemma load_setState:
  "load (th \<lparr> species_g := g \<rparr>) T0 rs = (load th T0 rs) \<lparr> m_thermo := th \<lparr> species_g := g \<rparr> \<rparr>"
  by (induction rs rule: rev_induct)
     (simp_all add: load_Nil Kinetics_init_def load_snoc addReaction_def Let_def
        speciesIndices_def thirdbodyEffs_def)

lemma seal_dnu_setState:
  "m_dnu (seal (load (th \<lparr> species_g := g \<rparr>) T0 rs)) = m_dnu (seal (load th T0 rs))"
  by (simp add: load_setState seal_def Let_def getReactionDelta_def nSpecies_def)

lemma seal_dnu_thermo:
  "nSpecies th' = nSpecies (m_thermo k) \<Longrightarrow> m_dnu (seal (k \<lparr> m_thermo := th' \<rparr>)) = m_dnu (seal k)"
  by (simp add: seal_def Let_def getReactionDelta_def)

lemma sealed_state_setState:
  "sealed_state rs k \<Longrightarrow> sealed_state rs (k \<lparr> m_thermo := (m_thermo k) \<lparr> species_g := g \<rparr> \<rparr>)"
  by (simp add: sealed_state_def load_setState seal_dnu_thermo nSpecies_def)

lemma sealed_state_step: "sealed_state rs k \<Longrightarrow> sealed_state rs (step RU ev k)"
  by (cases ev) (simp_all add: sealed_state_after sealed_state_setState)

lemma sealed_state_run: "sealed_state rs k \<Longrightarrow> sealed_state rs (run RU evs k)"
  unfolding run_def by (induction evs arbitrary: k) (simp_all add: sealed_state_step)

lemma step_mixture:
  "species_names (m_thermo (step RU ev k)) = species_names (m_thermo k) \<and>
   element_names (m_thermo (step RU ev k)) = element_names (m_thermo k) \<and>
   element_matrix (m_thermo (step RU ev k)) = element_matrix (m_thermo k) \<and>
   species_mw (m_thermo (step RU ev k)) = species_mw (m_thermo k)"
  by (cases ev) (simp_all add: state_after_fields)

lemma run_mixture:
  "species_names (m_thermo (run RU evs k)) = species_names (m_thermo k) \<and>
   element_names (m_thermo (run RU evs k)) = element_names (m_thermo k) \<and>
   element_matrix (m_thermo (run RU evs k)) = element_matrix (m_thermo k) \<and>
   species_mw (m_thermo (run RU evs k)) = species_mw (m_thermo k)"
  unfolding run_def by (induction evs arbitrary: k) (simp_all add: step_mixture)

lemma sealed_state_reachable:
  "closeReactions vo v (load th T0 rs) = Sealed k0 \<Longrightarrow> sealed_state rs (run RU evs k0)"
  by (simp add: sealed_state_closeReactions sealed_state_run)

lemma m_thermo_closeReactions:
  "closeReactions vo v (load th T0 rs) = Sealed k0 \<Longrightarrow> m_thermo k0 = th"
  by (auto dest!: closeReactions_Sealed simp: seal_def Let_def)

section \<open>The temperature cache\<close>

text \<open>
  Claim C4, as amended. The cache is keyed on \<open>T_last\<close>, not on the temperature of the
  previous call. A call of any rate-returning method at a temperature within \<open>10\<^sup>-\<^sup>6\<close>
  of \<open>T_last\<close> leaves both cached log vectors and \<open>T_last\<close> unchanged; so does a call at
  \<open>T2\<close> after a call at \<open>T1\<close> that did recompute, when \<open>T2\<close> is within \<open>10\<^sup>-\<^sup>6\<close> of \<open>T1\<close>.
  A call at a temperature at least \<open>10\<^sup>-\<^sup>6\<close> away from \<open>T_last\<close> recomputes both vectors
  and sets \<open>T_last\<close> to that temperature.
\<close>

theorem cache_keyed_on_T_last:
  "(\<bar>T - m_T_last k\<bar> < 1 / 10 ^ 6 \<longrightarrow> cached (state_after m RU T conc k) = cached k) \<and>
   (\<not> \<bar>T1 - m_T_last k\<bar> < 1 / 10 ^ 6 \<and> \<bar>T2 - T1\<bar> < 1 / 10 ^ 6 \<longrightarrow>
      cached (state_after m2 RU T2 c2 (state_after m1 RU T1 c1 k)) =
      cached (state_after m1 RU T1 c1 k)) \<and>
   (\<not> \<bar>T - m_T_last k\<bar> < 1 / 10 ^ 6 \<longrightarrow>
      cached (state_after m RU T conc k) =
        (lnForwardRateCoefficients (m_rates k) T (m_lnkf k),
         decrReactions (m_irr_prods k) (speciesGOverRT (m_thermo k))
           (decrReactions (m_rev_prods k) (speciesGOverRT (m_thermo k))
             (incrReactions (m_reactants k) (speciesGOverRT (m_thermo k))
               (map (\<lambda>d. d * ln (101325 / (RU * T))) (m_dnu k)))),
         T))"
proof (intro conjI impI)
  assume "\<bar>T - m_T_last k\<bar> < 1 / 10 ^ 6"
  then show "cached (state_after m RU T conc k) = cached k"
    by (simp add: state_after_fields updateT_noop)
next
  assume a: "\<not> \<bar>T1 - m_T_last k\<bar> < 1 / 10 ^ 6 \<and> \<bar>T2 - T1\<bar> < 1 / 10 ^ 6"
  let ?k1 = "state_after m1 RU T1 c1 k"
  have "cached ?k1 = cached (updateT RU T1 k)" by (simp add: state_after_fields)
  then have "m_T_last ?k1 = T1" using a by (simp add: cached_def updateT_T_last)
  then have "updateT RU T2 ?k1 = ?k1" using a by (simp add: updateT_noop)
  then show "cached (state_after m2 RU T2 c2 ?k1) = cached ?k1"
    by (simp add: state_after_fields)
next
  assume "\<not> \<bar>T - m_T_last k\<bar> < 1 / 10 ^ 6"
  then show "cached (state_after m RU T conc k) =
        (lnForwardRateCoefficients (m_rates k) T (m_lnkf k),
         decrReactions (m_irr_prods k) (speciesGOverRT (m_thermo k))
           (decrReactions (m_rev_prods k) (speciesGOverRT (m_thermo k))
             (incrReactions (m_reactants k) (speciesGOverRT (m_thermo k))
               (map (\<lambda>d. d * ln (101325 / (RU * T))) (m_dnu k)))),
         T)"
    by (simp add: state_after_fields) (simp add: cached_def updateT_def Let_def)
qed

lemma k_N_T_last: "m_T_last k_N = 0" by (simp add: k_N_def seal_def Let_def)

theorem cache_keyed_on_T_last_witness:
  "cached (state_after NetProductionRates RU_ex (1 / 10 ^ 7) [1, 0] k_N) = cached k_N \<and>
   cached (state_after BackwardRateCoefficients RU_ex (1000 + 5 / 10 ^ 7) []
            (state_after NetProductionRates RU_ex 1000 [1, 0] k_N)) =
     cached (state_after NetProductionRates RU_ex 1000 [1, 0] k_N) \<and>
   m_T_last (state_after ForwardRateCoefficients RU_ex 1000 [] k_N) = 1000"
  using cache_keyed_on_T_last [where k = k_N and T = "1 / 10 ^ 7" and m = NetProductionRates
      and RU = RU_ex and conc = "[1, 0]" and ?T1.0 = 1000 and ?T2.0 = "1000 + 5 / 10 ^ 7"
      and ?m1.0 = NetProductionRates and ?c1.0 = "[1, 0]" and ?m2.0 = BackwardRateCoefficients
      and ?c2.0 = "[]"]
    cache_keyed_on_T_last [where k = k_N and T = 1000 and m = ForwardRateCoefficients
      and RU = RU_ex and conc = "[]" and ?T1.0 = 1000 and ?T2.0 = 1000]
  by (simp add: k_N_T_last cached_def)

text \<open>
  The claim as first stated fails when the first of the two calls was itself a no-op:
  after an evaluation at 1000, calls at \<open>1000 + 9\<cdot>10\<^sup>-\<^sup>7\<close> and then at
  \<open>1000 + 15\<cdot>10\<^sup>-\<^sup>7\<close> are \<open>6\<cdot>10\<^sup>-\<^sup>7\<close> apart, yet the second one recomputes.
\<close>

theorem second_call_not_noop:
  "\<bar>(1000 + 15 / 10 ^ 7) - (1000 + 9 / 10 ^ 7)\<bar> < (1 / 10 ^ 6 :: real) \<and>
   cached (state_after ForwardRateCoefficients RU_ex (1000 + 15 / 10 ^ 7) []
            (state_after ForwardRateCoefficients RU_ex (1000 + 9 / 10 ^ 7) []
              (state_after ForwardRateCoefficients RU_ex 1000 [] k_N))) \<noteq>
   cached (state_after ForwardRateCoefficients RU_ex (1000 + 9 / 10 ^ 7) []
            (state_after ForwardRateCoefficients RU_ex 1000 [] k_N))"
proof -
  let ?k1 = "state_after ForwardRateCoefficients RU_ex 1000 [] k_N"
  let ?k2 = "state_after ForwardRateCoefficients RU_ex (1000 + 9 / 10 ^ 7) [] ?k1"
  let ?k3 = "state_after ForwardRateCoefficients RU_ex (1000 + 15 / 10 ^ 7) [] ?k2"
  have 1: "m_T_last ?k1 = 1000"
    using state_after_fields(1) [of ForwardRateCoefficients RU_ex 1000 "[]" k_N]
    by (simp add: cached_def updateT_T_last k_N_T_last)
  have "updateT RU_ex (1000 + 9 / 10 ^ 7) ?k1 = ?k1"
    by (rule updateT_noop) (use 1 in simp)
  then have 2: "m_T_last ?k2 = 1000"
    using state_after_fields(1) [of ForwardRateCoefficients RU_ex "1000 + 9 / 10 ^ 7" "[]" ?k1] 1
    by (simp add: cached_def)
  have "m_T_last (updateT RU_ex (1000 + 15 / 10 ^ 7) ?k2) = 1000 + 15 / 10 ^ 7"
    by (rule updateT_T_last) (use 2 in simp)
  then have 3: "m_T_last ?k3 = 1000 + 15 / 10 ^ 7"
    using state_after_fields(1) [of ForwardRateCoefficients RU_ex "1000 + 15 / 10 ^ 7" "[]" ?k2]
    by (simp add: cached_def)
  have "m_T_last ?k3 \<noteq> m_T_last ?k2" by (simp only: 2 3) simp
  then have "cached ?k3 \<noteq> cached ?k2" by (auto simp: cached_def)
  then show ?thesis by simp
qed

section \<open>Rate coefficients\<close>


lemma coefficients_nth:
  assumes "sealed_state rs k" "r < length rs"
  shows "fst (forwardRateCoefficients RU T k) ! r = exp (m_lnkf (updateT RU T k) ! r)"
    and "fst (equilibriumConstants RU T k) ! r = exp (m_lnkeq (updateT RU T k) ! r)"
    and "fst (backwardRateCoefficients RU T k) ! r =
           exp (m_lnkf (updateT RU T k) ! r - m_lnkeq (updateT RU T k) ! r)"
  using updateT_lengths [OF assms(1), of RU T] assms(2)
  by (simp_all add: forwardRateCoefficients_def equilibriumConstants_def
        backwardRateCoefficients_def Let_def)

lemma coefficients_state:
  "snd (forwardRateCoefficients RU T k) = updateT RU T k"
  "snd (equilibriumConstants RU T k) = updateT RU T k"
  "snd (backwardRateCoefficients RU T k) = updateT RU T k"
  by (simp_all add: forwardRateCoefficients_def equilibriumConstants_def
        backwardRateCoefficients_def Let_def)

text \<open>
  Claim C2. On a sealed engine, in any state it can reach, the three coefficient methods
  called one after the other at the same temperature agree for every reaction (so for
  every reversible one): the backward coefficient is the forward coefficient divided by
  the equilibrium constant, and it is the exponential of the difference of the two
  cached logarithms.
\<close>

theorem backward_is_forward_over_equilibrium:
  assumes "closeReactions vo v (load th T0 rs) = Sealed k0"
    and "k = run RU evs k0"
    and "r < length rs"
  shows "(let (kf, k1) = forwardRateCoefficients RU T k;
              (keq, k2) = equilibriumConstants RU T k1;
              (kb, k3) = backwardRateCoefficients RU T k2
          in kb ! r = kf ! r / keq ! r \<and>
             kb ! r = exp (m_lnkf k3 ! r - m_lnkeq k3 ! r))"
proof -
  have s: "sealed_state rs k" using assms(1,2) by (simp add: sealed_state_reachable)
  let ?u = "updateT RU T k"
  have su: "sealed_state rs ?u" using s by (rule sealed_state_updateT)
  have "fst (forwardRateCoefficients RU T k) ! r = exp (m_lnkf ?u ! r)"
    using coefficients_nth(1) [OF s assms(3)] .
  moreover have "fst (equilibriumConstants RU T ?u) ! r = exp (m_lnkeq ?u ! r)"
    using coefficients_nth(2) [OF su assms(3), of RU T] by (simp add: updateT_idem)
  moreover have "fst (backwardRateCoefficients RU T ?u) ! r =
      exp (m_lnkf ?u ! r - m_lnkeq ?u ! r)"
    using coefficients_nth(3) [OF su assms(3), of RU T] by (simp add: updateT_idem)
  ultimately show ?thesis
    by (simp add: split_beta coefficients_state updateT_idem exp_diff)
qed

lemma closeReactions_novalidate:
  "delta_in_range k (nSpecies (m_thermo k)) \<Longrightarrow> closeReactions vo False k = Sealed (seal k)"
  by (simp add: closeReactions_def compute_dnu_def)

lemma in_range_N: "delta_in_range (load th_N 0 [rx_N]) (nSpecies (m_thermo (load th_N 0 [rx_N])))"
  by (simp add: delta_in_range_def species_in_range_def nSpecies_def load_def addReaction_def
      Kinetics_init_def Let_def Stoich_addReaction_def speciesIndices_def speciesIndex_def
      size_t_of_int_def th_N_def rx_N_def)

theorem backward_is_forward_over_equilibrium_witness:
  "(let (kf, k1) = forwardRateCoefficients RU_ex 1000 k_N;
        (keq, k2) = equilibriumConstants RU_ex 1000 k1;
        (kb, k3) = backwardRateCoefficients RU_ex 1000 k2
    in kb ! 0 = kf ! 0 / keq ! 0 \<and> kb ! 0 = exp (m_lnkf k3 ! 0 - m_lnkeq k3 ! 0))"
proof -
  have 1: "closeReactions vo False (load th_N 0 [rx_N]) = Sealed k_N" for vo
    using in_range_N by (simp add: closeReactions_novalidate k_N_def)
  have 2: "k_N = run RU_ex [] k_N" by (simp add: run_def)
  have 3: "(0::nat) < length [rx_N]" by simp
  show ?thesis
    using backward_is_forward_over_equilibrium [OF 1 2 3, of 1000] .
qed

section \<open>Species resolution and the net mole-number change\<close>


lemma index_of_less: "x \<in> set xs \<Longrightarrow> index_of xs x < length xs"
  by (induction xs) auto

lemma nth_index_of: "x \<in> set xs \<Longrightarrow> xs ! index_of xs x = x"
  by (induction xs) auto

lemma index_of_nth: "distinct xs \<Longrightarrow> k < length xs \<Longrightarrow> index_of xs (xs ! k) = k"
proof (induction xs arbitrary: k)
  case Nil
  then show ?case by simp
next
  case (Cons y ys)
  then show ?case by (cases k) auto
qed

lemma speciesIndex_neg: "speciesIndex th nm < 0 \<longleftrightarrow> nm \<notin> set (species_names th)"
  by (simp add: speciesIndex_def)

lemma speciesIndex_resolved:
  assumes "nm \<in> set (species_names th)"
  shows "size_t_of_int (speciesIndex th nm) = index_of (species_names th) nm"
    and "nat (speciesIndex th nm) = index_of (species_names th) nm"
    and "size_t_of_int (speciesIndex th nm) < nSpecies th"
  using assms by (simp_all add: speciesIndex_def size_t_of_int_def nSpecies_def index_of_less)

lemma speciesIndices_resolved:
  assumes "set names \<subseteq> set (species_names th)"
  shows "speciesIndices th names = map (\<lambda>nm. nat (speciesIndex th nm)) names"
    and "\<forall>sp \<in> set (speciesIndices th names). sp < nSpecies th"
  using assms
  by (auto simp: speciesIndices_def speciesIndex_resolved subset_iff nSpecies_def index_of_less)

lemma speciesIndex_names:
  "species_names th' = species_names th \<Longrightarrow> speciesIndex th' = speciesIndex th"
  by (rule ext) (simp add: speciesIndex_def)

lemma speciesIndices_names:
  "species_names th' = species_names th \<Longrightarrow> speciesIndices th' = speciesIndices th"
  by (rule ext) (simp add: speciesIndices_def speciesIndex_names [of th' th])

lemma thirdbody_factor_names:
  "species_names th' = species_names th \<Longrightarrow> thirdbody_factor th' = thirdbody_factor th"
  by (intro ext) (simp add: thirdbody_factor_def thirdbodyEffs_def speciesIndex_names [of th' th])

lemma sealed_entries:
  assumes "sealed_state rs k" "r < length rs"
  shows "entries (m_reactants k) r = speciesIndices (m_thermo k) (reactants (rs ! r))"
    and "entries (m_rev_prods k) r =
           (if isReversible (rs ! r) then speciesIndices (m_thermo k) (products (rs ! r)) else [])"
    and "entries (m_irr_prods k) r =
           (if isReversible (rs ! r) then [] else speciesIndices (m_thermo k) (products (rs ! r)))"
    and "map snd (filter (\<lambda>e. fst e = r) (m_thirdbodies k)) =
           (if isThirdbody (rs ! r)
            then [thirdbodyEffs (m_thermo k) (efficiencies (rs ! r))] else [])"
  using assms by (simp_all add: sealed_state_def)

lemma sealed_rates:
  assumes "sealed_state rs k" "r < length rs" "length v = length rs"
  shows "lnForwardRateCoefficients (m_rates k) T v ! r = rateLaw (rs ! r) T"
  using assms by (simp add: sealed_state_def load_rates)

lemma check_species_rxn_Nil:
  "check_species_rxn th i rx = [] \<Longrightarrow>
     set (reactants rx) \<union> set (products rx) \<subseteq> set (species_names th)"
  by (auto simp: check_species_rxn_def filter_empty_conv speciesIndex_neg)

lemma check_species_Nil:
  assumes "check_species (load th T0 rs) = []"
  shows "species_ok th rs"
proof -
  have "\<forall>i < length rs. check_species_rxn th i (rs ! i) = []"
    using assms by (simp add: check_species_def)
  then show ?thesis
    unfolding species_ok_def using check_species_rxn_Nil
    by (metis in_set_conv_nth)
qed

lemma closeReactions_True_Sealed:
  "closeReactions vo True k = Sealed k' \<Longrightarrow>
     check_species k = [] \<and> check_duplicates vo k = Some [] \<and> check_conservation k = Some []"
  by (auto simp: closeReactions_def validate_def split: option.splits if_splits)

lemma validated_species_ok:
  "closeReactions vo True (load th T0 rs) = Sealed k0 \<Longrightarrow> species_ok th rs"
  by (auto dest!: closeReactions_True_Sealed intro: check_species_Nil)

lemma species_ok_nth:
  "species_ok th rs \<Longrightarrow> r < length rs \<Longrightarrow>
     set (reactants (rs ! r)) \<subseteq> set (species_names th) \<and>
     set (products (rs ! r)) \<subseteq> set (species_names th)"
  by (auto simp: species_ok_def)

lemma sum_ones: "\<forall>sp \<in> set sps. sp < ns \<Longrightarrow>
    sum_list (map (\<lambda>sp. replicate ns (1::real) ! sp) sps) = real (length sps)"
  by (induction sps) auto

lemma getReactionDelta_nth:
  assumes "sealed_state rs k" "r < length rs" "length v = length rs"
  shows "getReactionDelta k s v ! r =
           sum_list (map (\<lambda>sp. s ! sp) (speciesIndices (m_thermo k) (products (rs ! r)))) -
           sum_list (map (\<lambda>sp. s ! sp) (speciesIndices (m_thermo k) (reactants (rs ! r))))"
  using assms
  by (simp add: getReactionDelta_def nth_incrReactions nth_decrReactions sealed_entries)

lemma getReactionDelta_seal [simp]: "getReactionDelta (seal k) s v = getReactionDelta k s v"
  by (simp add: getReactionDelta_def seal_def Let_def)

lemma m_thermo_seal [simp]: "m_thermo (seal k) = m_thermo k"
  by (simp add: seal_def Let_def)

lemma dnu_nth:
  assumes "species_ok th rs" "r < length rs"
  shows "m_dnu (seal (load th T0 rs)) ! r =
           real (length (products (rs ! r))) - real (length (reactants (rs ! r)))"
proof -
  let ?k = "seal (load th T0 rs)"
  have "m_dnu ?k = getReactionDelta (load th T0 rs) (replicate (nSpecies th) 1) (replicate (length rs) 0)"
    by (simp add: seal_def Let_def)
  then have "m_dnu ?k = getReactionDelta ?k (replicate (nSpecies th) 1) (replicate (length rs) 0)"
    by simp
  then have "m_dnu ?k ! r =
      sum_list (map (\<lambda>sp. replicate (nSpecies th) 1 ! sp) (speciesIndices th (products (rs ! r)))) -
      sum_list (map (\<lambda>sp. replicate (nSpecies th) 1 ! sp) (speciesIndices th (reactants (rs ! r))))"
    using getReactionDelta_nth [OF sealed_state_seal assms(2), of "replicate (length rs) 0" th T0]
    by simp
  also have "\<dots> = real (length (speciesIndices th (products (rs ! r)))) -
                real (length (speciesIndices th (reactants (rs ! r))))"
  proof -
    have "\<forall>sp \<in> set (speciesIndices th (products (rs ! r))). sp < nSpecies th"
      and "\<forall>sp \<in> set (speciesIndices th (reactants (rs ! r))). sp < nSpecies th"
      using species_ok_nth [OF assms] speciesIndices_resolved(2) by blast+
    then show ?thesis using sum_ones by metis
  qed
  finally show ?thesis by (simp add: speciesIndices_def)
qed

lemma run_dnu: "m_dnu (run RU evs k) = m_dnu k"
  unfolding run_def
proof (induction evs arbitrary: k)
  case Nil
  then show ?case by simp
next
  case (Cons ev evs)
  have "m_dnu (step RU ev k) = m_dnu k"
    by (cases ev) (simp_all add: state_after_fields)
  with Cons show ?case by simp
qed

lemma species_in_range_snoc:
  "species_in_range (m @ [(j, sps)]) ns \<longleftrightarrow>
     species_in_range m ns \<and> (\<forall>sp \<in> set sps. sp < ns)"
  by (auto simp: species_in_range_def list_all_iff)

lemma species_ok_snoc:
  "species_ok th (rs @ [rx]) \<longleftrightarrow>
     species_ok th rs \<and> set (reactants rx) \<subseteq> set (species_names th) \<and>
     set (products rx) \<subseteq> set (species_names th)"
  by (auto simp: species_ok_def)

lemma load_in_range:
  "species_ok th rs \<Longrightarrow> delta_in_range (load th T0 rs) (nSpecies th)"
proof (induction rs rule: rev_induct)
  case Nil
  then show ?case
    by (simp add: load_Nil Kinetics_init_def delta_in_range_def species_in_range_def)
next
  case (snoc rx rs)
  then have ok: "species_ok th rs" and r: "set (reactants rx) \<subseteq> set (species_names th)"
    and p: "set (products rx) \<subseteq> set (species_names th)"
    by (simp_all add: species_ok_snoc)
  show ?case
    using snoc.IH [OF ok] speciesIndices_resolved(2) [OF r] speciesIndices_resolved(2) [OF p]
    by (simp add: load_snoc addReaction_def Let_def delta_in_range_def Stoich_addReaction_def
        species_in_range_snoc)
qed

lemma check_conservation_fold:
  assumes "delta_in_range k (nSpecies (m_thermo k))"
  shows "fold (check_conservation_step k) es (Some ds) =
           Some (ds @ concat (map (conservation_report_elem k) es))"
  using assms
  by (induction es arbitrary: ds)
     (simp_all add: check_conservation_step_def check_conservation_elem_def
        conservation_report_elem_def Let_def)

lemma check_conservation_in_range:
  "delta_in_range k (nSpecies (m_thermo k)) \<Longrightarrow>
     check_conservation k = Some (conservation_report k)"
  by (simp add: check_conservation_def conservation_report_def check_conservation_fold)

lemma check_conservation_None: "fold (check_conservation_step k) es None = None"
  by (induction es) (simp_all add: check_conservation_step_def)

lemma check_conservation_out_of_range:
  assumes "\<not> delta_in_range k (nSpecies (m_thermo k))" "0 < nElements (m_thermo k)"
  shows "check_conservation k = None"
proof -
  have u: "[0..<nElements (m_thermo k)] = 0 # [Suc 0..<nElements (m_thermo k)]"
    using assms(2) by (rule upt_conv_Cons)
  have "check_conservation_step k 0 (Some []) = None"
    using assms(1)
    by (simp add: check_conservation_step_def check_conservation_elem_def Let_def)
  then show ?thesis
    by (simp add: check_conservation_def u check_conservation_None)
qed

lemma compute_dnu_load:
  "species_ok th rs \<Longrightarrow> compute_dnu (load th T0 rs) = Sealed (seal (load th T0 rs))"
  using load_in_range [of th rs T0] by (simp add: compute_dnu_def)

text \<open>
  Claim C9. Sealing computes \<open>dnu\<close> by passing the all-ones species vector through
  \<open>getReactionDelta\<close> (which subtracts over the reactants and adds over both product
  managers). When the species of the mechanism resolve, as validation ensures, the entry
  of reaction \<open>r\<close> is the number of its products minus the number of its reactants,
  each counted with multiplicity, which is the sum of the product coefficients minus
  the sum of the reactant coefficients. No later call or state change modifies \<open>dnu\<close>.
\<close>

theorem dnu_computed_once:
  assumes "closeReactions vo v (load th T0 rs) = Sealed k0"
    and "v \<or> species_ok th rs"
  shows "m_dnu k0 = getReactionDelta (load th T0 rs)
                      (replicate (nSpecies th) 1) (replicate (length rs) 0) \<and>
         (\<forall>r < length rs. m_dnu k0 ! r =
             real (length (products (rs ! r))) - real (length (reactants (rs ! r)))) \<and>
         (\<forall>RU evs. m_dnu (run RU evs k0) = m_dnu k0)"
proof -
  have k0: "k0 = seal (load th T0 rs)" using assms(1) by (rule closeReactions_Sealed)
  have ok: "species_ok th rs"
    using assms validated_species_ok by (cases v) auto
  have "m_dnu k0 = getReactionDelta (load th T0 rs)
                      (replicate (nSpecies th) 1) (replicate (length rs) 0)"
    by (simp add: k0 seal_def Let_def)
  moreover have "\<forall>r < length rs. m_dnu k0 ! r =
             real (length (products (rs ! r))) - real (length (reactants (rs ! r)))"
    using dnu_nth [OF ok] by (simp add: k0)
  ultimately show ?thesis by (simp add: run_dnu)
qed

section \<open>The nitrogen mechanism passes validation\<close>


lemma load_N: "load th_N T0 [rx_N] =
   \<lparr> m_num_rxns = 1, m_thermo = th_N, m_reactions = [rx_N],
     m_reactants = [(0, [0])], m_rev_prods = [(0, [1, 1])], m_irr_prods = [],
     m_thirdbodies = [], m_rates = [(0, \<lambda>T. 0)],
     m_dnu = [], m_lnkf = [], m_lnkeq = [], m_ropf = [], m_ropb = [], m_rop = [],
     mp_g = [], m_T_last = T0 \<rparr>"
  by (simp add: load_def addReaction_def Kinetics_init_def Let_def th_N_def rx_N_def
      Stoich_addReaction_def addRateCoefficient_def speciesIndices_def speciesIndex_def
      size_t_of_int_def)

lemma size_t_pred_1: "size_t_pred (Suc 0) = 0"
  using size_t_pred_pos [of 1] by simp

lemma check_duplicates_N: "check_duplicates vo (load th_N T0 [rx_N]) = Some []"
  by (simp add: check_duplicates_def size_t_pred_1 load_N)

lemma check_species_N: "check_species (load th_N T0 [rx_N]) = []"
  by (simp add: check_species_def check_species_rxn_def load_N)
     (simp add: th_N_def rx_N_def speciesIndex_def)

lemma delta_in_range_N: "delta_in_range (load th_N T0 [rx_N]) (nSpecies th_N)"
  by (simp add: load_N delta_in_range_def species_in_range_def)
     (simp add: nSpecies_def th_N_def)

lemma check_conservation_N: "check_conservation (load th_N T0 [rx_N]) = Some []"
proof -
  have "conservation_report (load th_N T0 [rx_N]) = []"
    by (simp add: conservation_report_def conservation_report_elem_def load_N
        getReactionDelta_def incrReactions_def decrReactions_def
        nElements_def nSpecies_def elementMatrix_def Let_def)
       (simp add: th_N_def)
  then show ?thesis
    using delta_in_range_N [of T0] by (simp add: check_conservation_in_range)
qed

lemma validate_N: "validate vo (load th_N T0 [rx_N]) = Some []"
  by (simp add: validate_def check_duplicates_N check_species_N check_conservation_N)

lemma closeReactions_N: "closeReactions vo True (load th_N 0 [rx_N]) = Sealed k_N"
  using delta_in_range_N [of 0]
  by (simp add: closeReactions_def compute_dnu_def validate_N k_N_def)

theorem dnu_computed_once_witness:
  "m_dnu k_N ! 0 = 1 \<and>
   m_dnu (run RU_ex [Call NetProductionRates 1000 [1, 0], SetState (\<lambda>k. 1)] k_N) = m_dnu k_N"
proof -
  have "True \<or> species_ok th_N [rx_N]" by simp
  note th = dnu_computed_once [OF closeReactions_N this]
  have "m_dnu k_N ! 0 = 1"
    using th [THEN conjunct2, THEN conjunct1] by (simp add: rx_N_def)
  moreover have "m_dnu (run RU_ex [Call NetProductionRates 1000 [1, 0], SetState (\<lambda>k. 1)] k_N)
      = m_dnu k_N"
    using th [THEN conjunct2, THEN conjunct2] by simp
  ultimately show ?thesis by simp
qed

section \<open>Equilibrium constants\<close>

lemma reachable_names:
  assumes "closeReactions vo v (load th T0 rs) = Sealed k0"
  shows "species_names (m_thermo (run RU evs k0)) = species_names th"
  using run_mixture [of RU evs k0] m_thermo_closeReactions [OF assms] by simp

lemma lnkeq_nth:
  assumes s: "sealed_state rs k" and r: "r < length rs"
    and u: "\<not> \<bar>T - m_T_last k\<bar> < 1 / 10 ^ 6"
  shows "m_lnkeq (updateT RU T k) ! r =
           m_dnu k ! r * ln (101325 / (RU * T))
           + sum_list (map (\<lambda>sp. speciesGOverRT (m_thermo k) ! sp)
                           (speciesIndices (m_thermo k) (reactants (rs ! r))))
           - sum_list (map (\<lambda>sp. speciesGOverRT (m_thermo k) ! sp)
                           (speciesIndices (m_thermo k) (products (rs ! r))))"
proof -
  have d: "length (m_dnu k) = length rs" using s by (rule sealed_state_dnu_length)
  show ?thesis
    using u r d
    by (simp add: updateT_def Let_def nth_decrReactions nth_incrReactions
        sealed_entries [OF s r])
qed

lemma sum_g_resolved:
  assumes "set names \<subseteq> set (species_names th)"
  shows "sum_list (map (\<lambda>sp. speciesGOverRT th ! sp) (speciesIndices th names)) =
         sum_list (map (\<lambda>nm. species_g th (nat (speciesIndex th nm))) names)"
proof -
  have "\<forall>nm \<in> set names. nat (speciesIndex th nm) < nSpecies th"
    using assms by (auto simp: speciesIndex_def nSpecies_def index_of_less)
  then have "map (\<lambda>sp. speciesGOverRT th ! sp) (map (\<lambda>nm. nat (speciesIndex th nm)) names) =
             map (\<lambda>nm. species_g th (nat (speciesIndex th nm))) names"
    by (simp add: speciesGOverRT_def)
  then have "sum_list (map (\<lambda>sp. speciesGOverRT th ! sp)
                 (map (\<lambda>nm. nat (speciesIndex th nm)) names)) =
             sum_list (map (\<lambda>nm. species_g th (nat (speciesIndex th nm))) names)"
    by (rule arg_cong)
  then show ?thesis by (simp only: speciesIndices_resolved(1) [OF assms])
qed

text \<open>
  Claim C8. On a sealed engine whose species resolve, a call of any rate-returning
  method at a temperature that triggers the cache update leaves, for every reaction
  \<open>r\<close>, reversible or not, the log equilibrium constant
  \<open>dnu[r] * ln (101325 / (RU * T))\<close> plus the Gibbs energies \<open>g/RT\<close> of the reactants
  of \<open>r\<close> minus those of its products, each species counted with multiplicity; the
  Gibbs energies are those of the collaborator's state at the time of the call.
\<close>

theorem lnkeq_is_reaction_gibbs:
  assumes "closeReactions vo v (load th T0 rs) = Sealed k0"
    and "v \<or> species_ok th rs"
    and "k = run RU evs k0"
    and "\<not> \<bar>T - m_T_last k\<bar> < 1 / 10 ^ 6"
    and "r < length rs"
  shows "m_lnkeq (state_after m RU T conc k) ! r =
           m_dnu k ! r * ln (101325 / (RU * T))
           + (\<Sum>nm\<leftarrow>reactants (rs ! r). species_g (m_thermo k) (nat (speciesIndex th nm)))
           - (\<Sum>nm\<leftarrow>products (rs ! r). species_g (m_thermo k) (nat (speciesIndex th nm))) \<and>
         m_dnu k ! r = real (length (products (rs ! r))) - real (length (reactants (rs ! r)))"
proof -
  have s: "sealed_state rs k" using assms(1,3) by (simp add: sealed_state_reachable)
  have ok: "species_ok th rs" using assms(1,2) validated_species_ok by (cases v) auto
  have nm: "species_names (m_thermo k) = species_names th"
    using reachable_names [OF assms(1)] assms(3) by simp
  have ix: "speciesIndex (m_thermo k) = speciesIndex th" using nm by (rule speciesIndex_names)
  have sub: "set (reactants (rs ! r)) \<subseteq> set (species_names (m_thermo k))"
      "set (products (rs ! r)) \<subseteq> set (species_names (m_thermo k))"
    using species_ok_nth [OF ok assms(5)] nm by simp_all
  have "m_lnkeq (state_after m RU T conc k) = m_lnkeq (updateT RU T k)"
    using state_after_fields(1) [of m RU T conc k] by (simp add: cached_def)
  then have 1: "m_lnkeq (state_after m RU T conc k) ! r =
           m_dnu k ! r * ln (101325 / (RU * T))
           + (\<Sum>nm\<leftarrow>reactants (rs ! r). species_g (m_thermo k) (nat (speciesIndex th nm)))
           - (\<Sum>nm\<leftarrow>products (rs ! r). species_g (m_thermo k) (nat (speciesIndex th nm)))"
    using lnkeq_nth [OF s assms(5,4), of RU] sum_g_resolved [OF sub(1)] sum_g_resolved [OF sub(2)]
    by (simp add: ix)
  have "k0 = seal (load th T0 rs)" using assms(1) by (rule closeReactions_Sealed)
  then have 2: "m_dnu k ! r = real (length (products (rs ! r))) - real (length (reactants (rs ! r)))"
    using dnu_nth [OF ok assms(5), of T0] assms(3) by (simp add: run_dnu)
  from 1 2 show ?thesis by simp
qed

lemma run_Nil: "run RU [] k = k" by (simp add: run_def)

theorem lnkeq_is_reaction_gibbs_witness:
  "m_lnkeq (state_after EquilibriumConstants RU_ex 1000 []
             (run RU_ex [SetState (\<lambda>s. if s = 0 then 3 else 5)] k_N)) ! 0 =
     ln (101325 / (RU_ex * 1000)) + 3 - 10"
proof -
  let ?k = "run RU_ex [SetState (\<lambda>s. if s = 0 then 3 else 5)] k_N"
  have 2: "True \<or> species_ok th_N [rx_N]" by simp
  have 3: "?k = run RU_ex [SetState (\<lambda>s. if s = 0 then 3 else 5)] k_N" by simp
  have 4: "\<not> \<bar>1000 - m_T_last ?k\<bar> < 1 / 10 ^ 6" by (simp add: run_def k_N_T_last)
  have 5: "(0::nat) < length [rx_N]" by simp
  have g: "species_g (m_thermo ?k) = (\<lambda>s. if s = 0 then 3 else 5)" by (simp add: run_def)
  have ix: "speciesIndex th_N ''N2'' = 0" "speciesIndex th_N ''N'' = 1"
    by (simp_all add: speciesIndex_def th_N_def)
  note th = lnkeq_is_reaction_gibbs [OF closeReactions_N 2 3 4 5, of EquilibriumConstants "[]"]
  have d: "m_dnu ?k ! 0 = 1"
    using th [THEN conjunct2] by (simp add: rx_N_def)
  show ?thesis
    unfolding th [THEN conjunct1] d g by (simp add: rx_N_def ix)
qed

section \<open>Rates of progress\<close>


lemma thirdbody_nth:
  assumes "sealed_state rs k" "r < length rs" "length v = length rs"
  shows "multiplyThirdbodies (m_thirdbodies k) conc v ! r =
           v ! r * thirdbody_factor (m_thermo k) (rs ! r) conc"
  using assms
  by (simp add: nth_multiplyThirdbodies sealed_entries thirdbody_factor_def)

lemma backwardRatesOfProgress_nth:
  assumes s: "sealed_state rs k" and r: "r < length rs"
  shows "fst (backwardRatesOfProgress RU T conc k) ! r =
           exp (m_lnkf (updateT RU T k) ! r - m_lnkeq (updateT RU T k) ! r)
           * prod_list (map (\<lambda>sp. conc ! sp) (entries (m_rev_prods k) r))
           * thirdbody_factor (m_thermo k) (rs ! r) conc"
proof -
  let ?u = "updateT RU T k"
  have su: "sealed_state rs ?u" using s by (rule sealed_state_updateT)
  have len: "length (m_lnkf ?u) = length rs" "length (m_lnkeq ?u) = length rs"
    using updateT_lengths [OF s, of RU T] by simp_all
  show ?thesis
    using r len thirdbody_nth [OF su r, of _ conc]
    by (simp add: backwardRatesOfProgress_def backwardRateCoefficients_def Let_def
        nth_multReactions updateT_static)
qed

lemma netRatesOfProgress_nth:
  assumes s: "sealed_state rs k" and r: "r < length rs"
  shows "fst (netRatesOfProgress RU T conc k) ! r =
           (exp (m_lnkf (updateT RU T k) ! r)
              * prod_list (map (\<lambda>sp. conc ! sp) (entries (m_reactants k) r))
            - exp (m_lnkf (updateT RU T k) ! r - m_lnkeq (updateT RU T k) ! r)
              * prod_list (map (\<lambda>sp. conc ! sp) (entries (m_rev_prods k) r)))
           * thirdbody_factor (m_thermo k) (rs ! r) conc"
proof -
  let ?u = "updateT RU T k"
  have su: "sealed_state rs ?u" using s by (rule sealed_state_updateT)
  have len: "length (m_lnkf ?u) = length rs" "length (m_lnkeq ?u) = length rs"
    using updateT_lengths [OF s, of RU T] by simp_all
  show ?thesis
    using r len thirdbody_nth [OF su r, of _ conc]
    by (simp add: netRatesOfProgress_def forwardRateCoefficients_def
        backwardRateCoefficients_def Let_def updateT_ropf updateT_idem
        nth_multReactions updateT_static)
qed

text \<open>
  Claim C3. For a reaction that is not marked reversible, \<open>backwardRatesOfProgress\<close>
  gives \<open>exp (lnkf - lnkeq)\<close> times the third-body factor and nothing else: the products
  are held by the irreversible-product manager, which \<open>multReactions\<close> on the
  reversible-product manager does not see. The value is nonzero whenever the third-body
  factor is (which is 1 for a reaction without third body), and \<open>netRatesOfProgress\<close>
  subtracts it from the forward rate of progress.
\<close>

theorem irreversible_backward_rate:
  assumes "closeReactions vo v (load th T0 rs) = Sealed k0"
    and "k = run RU evs k0"
    and "r < length rs"
    and "\<not> isReversible (rs ! r)"
  shows "fst (backwardRatesOfProgress RU T conc k) ! r =
           exp (m_lnkf (updateT RU T k) ! r - m_lnkeq (updateT RU T k) ! r)
           * thirdbody_factor th (rs ! r) conc \<and>
         (thirdbody_factor th (rs ! r) conc \<noteq> 0 \<longrightarrow>
            fst (backwardRatesOfProgress RU T conc k) ! r \<noteq> 0) \<and>
         fst (netRatesOfProgress RU T conc k) ! r =
           (exp (m_lnkf (updateT RU T k) ! r)
              * prod_list (map (\<lambda>sp. conc ! sp) (speciesIndices th (reactants (rs ! r))))
            - exp (m_lnkf (updateT RU T k) ! r - m_lnkeq (updateT RU T k) ! r))
           * thirdbody_factor th (rs ! r) conc"
proof -
  have s: "sealed_state rs k" using assms(1,2) by (simp add: sealed_state_reachable)
  have nm: "species_names (m_thermo k) = species_names th"
    using reachable_names [OF assms(1)] assms(2) by simp
  have tb: "thirdbody_factor (m_thermo k) = thirdbody_factor th"
    using nm by (rule thirdbody_factor_names)
  have ix: "speciesIndices (m_thermo k) = speciesIndices th"
    using nm by (rule speciesIndices_names)
  have e: "entries (m_rev_prods k) r = []"
      "entries (m_reactants k) r = speciesIndices th (reactants (rs ! r))"
    using sealed_entries [OF s assms(3)] assms(4) by (simp_all add: ix)
  have 1: "fst (backwardRatesOfProgress RU T conc k) ! r =
           exp (m_lnkf (updateT RU T k) ! r - m_lnkeq (updateT RU T k) ! r)
           * thirdbody_factor th (rs ! r) conc"
    using backwardRatesOfProgress_nth [OF s assms(3), of RU T conc] by (simp add: e tb)
  have 2: "fst (netRatesOfProgress RU T conc k) ! r =
           (exp (m_lnkf (updateT RU T k) ! r)
              * prod_list (map (\<lambda>sp. conc ! sp) (speciesIndices th (reactants (rs ! r))))
            - exp (m_lnkf (updateT RU T k) ! r - m_lnkeq (updateT RU T k) ! r))
           * thirdbody_factor th (rs ! r) conc"
    using netRatesOfProgress_nth [OF s assms(3), of RU T conc] by (simp add: e tb)
  from 1 have 3: "thirdbody_factor th (rs ! r) conc \<noteq> 0 \<longrightarrow>
            fst (backwardRatesOfProgress RU T conc k) ! r \<noteq> 0"
    by simp
  from 1 2 3 show ?thesis by blast
qed


theorem irreversible_backward_rate_witness:
  "fst (backwardRatesOfProgress RU_ex 1000 [1, 0] k_N_irr) ! 0 =
     exp (m_lnkf (updateT RU_ex 1000 k_N_irr) ! 0 - m_lnkeq (updateT RU_ex 1000 k_N_irr) ! 0) \<and>
   fst (backwardRatesOfProgress RU_ex 1000 [1, 0] k_N_irr) ! 0 \<noteq> 0"
proof -
  have "species_ok th_N [rx_N_irr]"
    by (simp add: species_ok_def th_N_def rx_N_irr_def rx_N_def)
  then have 1: "closeReactions vo False (load th_N 0 [rx_N_irr]) = Sealed k_N_irr" for vo
    by (simp add: closeReactions_def compute_dnu_load k_N_irr_def)
  have 2: "k_N_irr = run RU_ex [] k_N_irr" by (simp add: run_Nil)
  have 3: "(0::nat) < length [rx_N_irr]" by simp
  have 4: "\<not> isReversible ([rx_N_irr] ! 0)" by (simp add: rx_N_irr_def)
  have tb: "thirdbody_factor th_N ([rx_N_irr] ! 0) [1, 0] = 1"
    by (simp add: thirdbody_factor_def rx_N_irr_def rx_N_def)
  note th = irreversible_backward_rate [OF 1 2 3 4, of 1000 "[1, 0]"]
  have a: "fst (backwardRatesOfProgress RU_ex 1000 [1, 0] k_N_irr) ! 0 =
     exp (m_lnkf (updateT RU_ex 1000 k_N_irr) ! 0 - m_lnkeq (updateT RU_ex 1000 k_N_irr) ! 0)"
    using th [THEN conjunct1] by (simp only: tb mult_1_right)
  have b: "fst (backwardRatesOfProgress RU_ex 1000 [1, 0] k_N_irr) ! 0 \<noteq> 0"
    using th [THEN conjunct2, THEN conjunct1] by (simp only: tb) simp
  from a b show ?thesis by (rule conjI)
qed

section \<open>The duplicate pass\<close>


lemma stoich_row_nth: "i < length rs \<Longrightarrow> stoich_row th rs i = Some (stoich_vec th (rs ! i))"
  by (simp add: stoich_row_def rxn_at_def stoich_vec_def)

lemma dup_inner_None: "fold (dup_inner_step vo th rs v i) js None = None"
  by (induction js) (simp_all add: dup_inner_step_def)

lemma dup_outer_None: "fold (dup_outer_step vo th rs n) is None = None"
  by (induction "is") (simp_all add: dup_outer_step_def)

lemma dup_inner_fold:
  assumes "i < length rs" "\<forall>j \<in> set js. j < length rs"
  shows "fold (dup_inner_step vo th rs (normalize_op vo (stoich_vec th (rs ! i))) i) js (Some ds) =
         Some (ds @ concat (map (\<lambda>j.
           if identical_pair vo th rs i j
           then [ReactionsIdentical (i + 1) (formula (rs ! i)) (j + 1) (formula (rs ! j))]
           else []) js))"
  using assms
  by (induction js arbitrary: ds)
     (simp_all add: dup_inner_step_def stoich_row_nth rxn_at_def identical_pair_def)

lemma dup_outer_fold:
  assumes "\<forall>i \<in> set is. i < length rs"
  shows "fold (dup_outer_step vo th rs (length rs)) is (Some ds) =
         Some (ds @ concat (map (\<lambda>i. concat (map (\<lambda>j.
           if identical_pair vo th rs i j
           then [ReactionsIdentical (i + 1) (formula (rs ! i)) (j + 1) (formula (rs ! j))]
           else []) [i + 1..<length rs])) is))"
  using assms
  by (induction "is" arbitrary: ds)
     (simp_all add: dup_outer_step_def stoich_row_nth dup_inner_fold)

lemma check_duplicates_load:
  assumes "0 < length rs" "length rs < 2 ^ 64"
  shows "check_duplicates vo (load th T0 rs) = Some (duplicates_report vo th rs)"
proof -
  have "\<forall>i \<in> set [0..<length rs - 1]. i < length rs" by auto
  from dup_outer_fold [OF this, where th = th and ds = "[]" and vo = vo] show ?thesis
    using assms by (simp add: check_duplicates_def size_t_pred_pos duplicates_report_def)
qed

lemma check_duplicates_empty:
  assumes "0 < nSpecies th"
  shows "check_duplicates vo (load th T0 []) = None"
proof -
  have "0 < size_t_pred 0" by (simp add: size_t_pred_0)
  then have u: "[0..<size_t_pred 0] = 0 # [Suc 0..<size_t_pred 0]"
    by (rule upt_conv_Cons)
  have st: "dup_outer_step vo th [] 0 0 (Some []) = None"
    using assms by (simp add: dup_outer_step_def stoich_row_def rxn_at_def)
  have "check_duplicates vo (load th T0 []) =
          fold (dup_outer_step vo th [] 0) [0..<size_t_pred 0] (Some [])"
    by (simp add: check_duplicates_def)
  also have "\<dots> = fold (dup_outer_step vo th [] 0) [Suc 0..<size_t_pred 0]
                     (dup_outer_step vo th [] 0 0 (Some []))"
    by (subst u) simp
  also have "\<dots> = None" by (simp only: st dup_outer_None)
  finally show ?thesis .
qed

lemma duplicates_report_iff:
  "d \<in> set (duplicates_report vo th rs) \<longleftrightarrow>
     (\<exists>i j. i < j \<and> j < length rs \<and> identical_pair vo th rs i j \<and>
            d = ReactionsIdentical (i + 1) (formula (rs ! i)) (j + 1) (formula (rs ! j)))"
proof
  assume "d \<in> set (duplicates_report vo th rs)"
  then obtain i j where "i < length rs - 1" "i + 1 \<le> j" "j < length rs"
      and d: "d \<in> set (if identical_pair vo th rs i j
           then [ReactionsIdentical (i + 1) (formula (rs ! i)) (j + 1) (formula (rs ! j))]
           else [])"
    unfolding duplicates_report_def by fastforce
  then show "\<exists>i j. i < j \<and> j < length rs \<and> identical_pair vo th rs i j \<and>
            d = ReactionsIdentical (i + 1) (formula (rs ! i)) (j + 1) (formula (rs ! j))"
    by (intro exI [of _ i] exI [of _ j]) (simp split: if_splits)
next
  assume "\<exists>i j. i < j \<and> j < length rs \<and> identical_pair vo th rs i j \<and>
            d = ReactionsIdentical (i + 1) (formula (rs ! i)) (j + 1) (formula (rs ! j))"
  then obtain i j where ij: "i < j" "j < length rs" "identical_pair vo th rs i j"
      and d: "d = ReactionsIdentical (i + 1) (formula (rs ! i)) (j + 1) (formula (rs ! j))"
    by blast
  have "i \<in> set [0..<length rs - 1]" "j \<in> set [i + 1..<length rs]" using ij by auto
  then show "d \<in> set (duplicates_report vo th rs)"
    unfolding duplicates_report_def set_concat set_map using ij(3) d by fastforce
qed

text \<open>
  Claim C10. For a mechanism with at least one reaction (and no more than a \<^verbatim>\<open>size_t\<close>
  can count) the duplicate pass never reads \<^verbatim>\<open>m_reactions\<close> outside its bounds: it
  returns its report, and every index of the outer loop and of the inner loop is below
  the number of reactions. The precondition is needed: the bound \<^verbatim>\<open>m_num_rxns - 1\<close> of
  the outer loop is \<^verbatim>\<open>SIZE_MAX\<close> for an empty mechanism, and with at least one species the
  pass then reads \<^verbatim>\<open>m_reactions[0]\<close>, which does not exist.
\<close>

theorem duplicate_pass_indices:
  "(0 < length rs \<and> length rs < 2 ^ 64 \<longrightarrow>
      check_duplicates vo (load th T0 rs) = Some (duplicates_report vo th rs) \<and>
      (\<forall>i \<in> set [0..<size_t_pred (length rs)].
          i < length rs \<and> (\<forall>j \<in> set [i + 1..<length rs]. j < length rs))) \<and>
   size_t_pred 0 = SIZE_MAX \<and>
   (0 < nSpecies th \<longrightarrow> check_duplicates vo (load th T0 []) = None)"
proof (intro conjI impI)
  assume a: "0 < length rs \<and> length rs < 2 ^ 64"
  then show "check_duplicates vo (load th T0 rs) = Some (duplicates_report vo th rs)"
    by (simp add: check_duplicates_load)
  have "size_t_pred (length rs) = length rs - 1" using a by (simp add: size_t_pred_pos)
  then show "\<forall>i \<in> set [0..<size_t_pred (length rs)].
          i < length rs \<and> (\<forall>j \<in> set [i + 1..<length rs]. j < length rs)"
    by auto
next
  show "size_t_pred 0 = SIZE_MAX" by (simp add: size_t_pred_0 SIZE_MAX_def)
next
  assume "0 < nSpecies th"
  then show "check_duplicates vo (load th T0 []) = None" by (rule check_duplicates_empty)
qed


theorem duplicate_pass_indices_witness:
  "check_duplicates unrounded_ops (load th_N 0 mech_bad) =
     Some (duplicates_report unrounded_ops th_N mech_bad) \<and>
   length mech_bad = 3 \<and>
   [0..<size_t_pred (length mech_bad)] = [0, 1] \<and>
   [0 + 1..<length mech_bad] = [1, 2] \<and> [1 + 1..<length mech_bad] = [2] \<and>
   check_duplicates unrounded_ops (load th_N 0 []) = None"
proof -
  have 1: "0 < length mech_bad \<and> length mech_bad < 2 ^ 64" by (simp add: mech_bad_def)
  have 2: "0 < nSpecies th_N" by (simp add: nSpecies_def th_N_def)
  note th = duplicate_pass_indices [of mech_bad unrounded_ops th_N 0]
  have l: "length mech_bad = 3" by (simp add: mech_bad_def)
  have "size_t_pred (length mech_bad) = 2"
    using size_t_pred_pos [of "length mech_bad"] 1 by (simp add: l)
  then have 3: "[0..<size_t_pred (length mech_bad)] = [0, 1]"
    by (simp add: upt_rec)
  have 4: "[0 + 1..<length mech_bad] = [1, 2]" "[1 + 1..<length mech_bad] = [2]"
    by (simp_all add: l upt_rec)
  from th [THEN conjunct1, rule_format, OF 1, THEN conjunct1] l 3 4
    th [THEN conjunct2, THEN conjunct2, rule_format, OF 2]
  show ?thesis by simp
qed

section \<open>Validation\<close>


lemma validate_load:
  assumes "0 < length rs" "length rs < 2 ^ 64" "species_ok th rs"
  shows "validate vo (load th T0 rs) = Some (validation_report vo th T0 rs)"
  using assms load_in_range [OF assms(3), of T0]
  by (simp add: validate_def check_duplicates_load check_conservation_in_range
      validation_report_def)

lemma closeReactions_True_load:
  assumes "0 < length rs" "length rs < 2 ^ 64" "species_ok th rs"
  shows "closeReactions vo True (load th T0 rs) =
           (if validation_report vo th T0 rs \<noteq> []
            then ValidationFailed (validation_report vo th T0 rs)
            else Sealed (seal (load th T0 rs)))"
  using assms by (simp add: closeReactions_def validate_load compute_dnu_load)

lemma dup_outer_no_species:
  assumes "nSpecies th = 0"
  shows "fold (dup_outer_step vo th [] 0) is (Some []) = Some []"
  using assms by (induction "is") (simp_all add: dup_outer_step_def stoich_row_def)

lemma closeReactions_True_empty:
  "closeReactions vo True (load th T0 []) =
     (if nSpecies th = 0 then Sealed (seal (load th T0 [])) else OutOfBounds)"
proof (cases "nSpecies th = 0")
  case True
  have ok: "species_ok th []" by (simp add: species_ok_def)
  have "check_duplicates vo (load th T0 []) = Some []"
    using True by (simp add: check_duplicates_def dup_outer_no_species)
  moreover have "check_conservation (load th T0 []) = Some []"
    using load_in_range [OF ok, of T0]
    by (simp add: check_conservation_in_range conservation_report_def
        conservation_report_elem_def Let_def)
  ultimately show ?thesis
    using True
    by (simp add: closeReactions_def validate_def check_species_def compute_dnu_load [OF ok])
next
  case False
  then show ?thesis
    by (simp add: closeReactions_def validate_def check_duplicates_empty)
qed

lemma check_species_iff:
  "d \<in> set (check_species (load th T0 rs)) \<longleftrightarrow>
     (\<exists>i < length rs. d \<in> set (check_species_rxn th i (rs ! i)))"
  by (auto simp: check_species_def)

lemma conservation_report_iff:
  "d \<in> set (conservation_report (load th T0 rs)) \<longleftrightarrow>
     (\<exists>e < nElements th. \<exists>j < length rs.
        getReactionDelta (load th T0 rs) (map (\<lambda>s. elementMatrix th s e) [0..<nSpecies th])
           (replicate (length rs) 0) ! j \<noteq> 0 \<and>
        d = NotConserved (j + 1) (formula (rs ! j)) (elementName th e))"
  by (auto simp: conservation_report_def conservation_report_elem_def Let_def)


section \<open>Validation of the example mechanisms\<close>





lemma getReactionDelta_load_nth:
  assumes "r < length rs" "length v = length rs"
  shows "getReactionDelta (load th T0 rs) s v ! r =
           sum_list (map (\<lambda>sp. s ! sp) (speciesIndices th (products (rs ! r)))) -
           sum_list (map (\<lambda>sp. s ! sp) (speciesIndices th (reactants (rs ! r))))"
  using getReactionDelta_nth [OF sealed_state_seal assms, of th T0 s] by simp


text \<open>
  Claim C7, at an input where the code departs from it. The one reaction of the
  mechanism names a product \<open>O\<close> that the mixture of \<open>N2\<close> and \<open>N\<close> does not have. The
  species pass reports it (once for each occurrence) and the duplicate pass runs, but
  the conservation pass does not run to completion and \<^verbatim>\<open>exit(1)\<close> is not reached in a
  defined way: \<^verbatim>\<open>getReactionDelta\<close> indexes the species vector with the stored
  \<^verbatim>\<open>(size_t)-1\<close>. For a mechanism with at least one reaction whose species all resolve,
  \<open>closeReactions_True_load\<close> is the claim: the three reports, each complete by
  \<open>check_species_iff\<close>, \<open>duplicates_report_iff\<close> and \<open>conservation_report_iff\<close>, are
  printed one after the other before the load is aborted.
\<close>

theorem unresolved_species_out_of_bounds:
  "check_species (load th_N 0 [rx_N_O]) =
     [SpeciesMissing 1 ''N2 = 2O'' ''O'', SpeciesMissing 1 ''N2 = 2O'' ''O''] \<and>
   check_duplicates vo (load th_N 0 [rx_N_O]) = Some [] \<and>
   check_conservation (load th_N 0 [rx_N_O]) = None \<and>
   closeReactions vo True (load th_N 0 [rx_N_O]) = OutOfBounds"
proof -
  have l: "load th_N 0 [rx_N_O] =
     \<lparr> m_num_rxns = 1, m_thermo = th_N, m_reactions = [rx_N_O],
       m_reactants = [(0, [0])],
       m_rev_prods = [(0, [18446744073709551615, 18446744073709551615])], m_irr_prods = [],
       m_thirdbodies = [], m_rates = [(0, \<lambda>T. 0)],
       m_dnu = [], m_lnkf = [], m_lnkeq = [], m_ropf = [], m_ropb = [], m_rop = [],
       mp_g = [], m_T_last = 0 \<rparr>"
    by (simp add: load_def addReaction_def Kinetics_init_def Let_def th_N_def rx_N_O_def
        rx_N_def Stoich_addReaction_def addRateCoefficient_def speciesIndices_def
        speciesIndex_def size_t_of_int_def)
  have a: "check_species (load th_N 0 [rx_N_O]) =
     [SpeciesMissing 1 ''N2 = 2O'' ''O'', SpeciesMissing 1 ''N2 = 2O'' ''O'']"
    by (simp add: check_species_def check_species_rxn_def l)
       (simp add: th_N_def rx_N_O_def rx_N_def speciesIndex_def)
  have b: "check_duplicates vo (load th_N 0 [rx_N_O]) = Some []"
    by (simp add: check_duplicates_def size_t_pred_1 l)
  have "\<not> delta_in_range (load th_N 0 [rx_N_O]) (nSpecies (m_thermo (load th_N 0 [rx_N_O])))"
    by (simp add: l delta_in_range_def species_in_range_def)
       (simp add: nSpecies_def th_N_def)
  moreover have "0 < nElements (m_thermo (load th_N 0 [rx_N_O]))"
    by (simp add: nElements_def th_N_def)
  ultimately have c: "check_conservation (load th_N 0 [rx_N_O]) = None"
    by (rule check_conservation_out_of_range)
  have d: "closeReactions vo True (load th_N 0 [rx_N_O]) = OutOfBounds"
    by (simp add: closeReactions_def validate_def b c)
  from a b c d show ?thesis by simp
qed

section \<open>Residuals by species name and by species index\<close>

lemma sum_list_upt_sum: "sum_list (map f [0..<n]) = (\<Sum>i<n. f i)"
  by (simp add: interv_sum_list_conv_sum_set_nat atLeast0LessThan)

lemma sum_single: "a < (n::nat) \<Longrightarrow> (\<Sum>k<n. if a = k then f k else 0) = (f a :: real)"
  by (simp add: sum.delta')

lemma count_sum:
  assumes "\<forall>sp \<in> set sps. sp < (n::nat)"
  shows "(\<Sum>k<n. real (count_list sps k) * f k) = (\<Sum>sp\<leftarrow>sps. (f sp :: real))"
  using assms
proof (induction sps)
  case Nil
  then show ?case by simp
next
  case (Cons a sps)
  have "(\<Sum>k<n. real (count_list (a # sps) k) * f k) =
        (\<Sum>k<n. real (count_list sps k) * f k + (if a = k then f k else 0))"
    by (rule sum.cong) (auto simp: algebra_simps)
  also have "\<dots> = (\<Sum>k<n. real (count_list sps k) * f k) + (\<Sum>k<n. if a = k then f k else 0)"
    by (rule sum.distrib)
  also have "\<dots> = (\<Sum>sp\<leftarrow>sps. f sp) + f a"
    using Cons by (simp add: sum_single)
  finally show ?case by simp
qed

lemma index_of_eq:
  assumes "distinct xs" "y \<in> set xs" "k < length xs"
  shows "index_of xs y = k \<longleftrightarrow> y = xs ! k"
  using assms index_of_nth nth_index_of by metis

lemma count_index:
  assumes "distinct xs" "set ys \<subseteq> set xs" "k < length xs"
  shows "count_list (map (index_of xs) ys) k = count_list ys (xs ! k)"
  using assms(2)
proof (induction ys)
  case Nil
  then show ?case by simp
next
  case (Cons y ys)
  then have "y \<in> set xs" by simp
  from index_of_eq [OF assms(1) this assms(3)] Cons show ?case by simp
qed

lemma speciesIndices_index_of:
  assumes "set names \<subseteq> set (species_names th)"
  shows "speciesIndices th names = map (index_of (species_names th)) names"
  using assms by (auto simp: speciesIndices_def speciesIndex_resolved(1))

lemma count_names:
  assumes "distinct (species_names th)" "set names \<subseteq> set (species_names th)"
  shows "(\<Sum>k<nSpecies th. real (count_list names (speciesName th k)) * f k) =
         (\<Sum>sp\<leftarrow>speciesIndices th names. (f sp :: real))"
proof -
  have "(\<Sum>k<nSpecies th. real (count_list names (speciesName th k)) * f k) =
        (\<Sum>k<nSpecies th. real (count_list (speciesIndices th names) k) * f k)"
    by (rule sum.cong)
       (simp_all add: speciesIndices_index_of [OF assms(2)] count_index [OF assms]
          nSpecies_def speciesName_def)
  also have "\<dots> = (\<Sum>sp\<leftarrow>speciesIndices th names. f sp)"
    by (rule count_sum) (rule speciesIndices_resolved(2) [OF assms(2)])
  finally show ?thesis .
qed

lemma residual_resolved:
  assumes "distinct (species_names th)"
    and "set (reactants rx) \<subseteq> set (species_names th)"
    and "set (products rx) \<subseteq> set (species_names th)"
  shows "residual th rx e =
           (\<Sum>sp\<leftarrow>speciesIndices th (products rx). elementMatrix th sp e) -
           (\<Sum>sp\<leftarrow>speciesIndices th (reactants rx). elementMatrix th sp e)"
proof -
  have "residual th rx e =
      (\<Sum>k<nSpecies th. real (count_list (products rx) (speciesName th k)) * elementMatrix th k e) -
      (\<Sum>k<nSpecies th. real (count_list (reactants rx) (speciesName th k)) * elementMatrix th k e)"
    by (simp add: residual_def sum_list_upt_sum product_def reactant_def algebra_simps
        sum_subtractf)
  then show ?thesis
    by (simp add: count_names [OF assms(1,3)] count_names [OF assms(1,2)])
qed

lemma column_sum:
  assumes "\<forall>sp \<in> set sps. sp < n"
  shows "(\<Sum>sp\<leftarrow>sps. map f [0..<n] ! sp) = (\<Sum>sp\<leftarrow>sps. f sp)"
  using assms by (induction sps) simp_all

lemma mass_resolved:
  assumes "species_ok th rs" "j < length rs"
  shows "getReactionDelta (load th T0 rs) (map (\<lambda>s. elementMatrix th s e) [0..<nSpecies th])
           (replicate (length rs) 0) ! j =
         (\<Sum>sp\<leftarrow>speciesIndices th (products (rs ! j)). elementMatrix th sp e) -
         (\<Sum>sp\<leftarrow>speciesIndices th (reactants (rs ! j)). elementMatrix th sp e)"
proof -
  have sub: "set (reactants (rs ! j)) \<subseteq> set (species_names th)"
            "set (products (rs ! j)) \<subseteq> set (species_names th)"
    using species_ok_nth [OF assms] by simp_all
  show ?thesis
    using assms(2)
    by (simp add: getReactionDelta_load_nth
        column_sum [OF speciesIndices_resolved(2) [OF sub(1)]]
        column_sum [OF speciesIndices_resolved(2) [OF sub(2)]])
qed

lemma mass_is_residual:
  assumes "distinct (species_names th)" "species_ok th rs" "j < length rs"
  shows "getReactionDelta (load th T0 rs) (map (\<lambda>s. elementMatrix th s e) [0..<nSpecies th])
           (replicate (length rs) 0) ! j = residual th (rs ! j) e"
  using species_ok_nth [OF assms(2,3)]
  by (simp add: mass_resolved [OF assms(2,3)] residual_resolved [OF assms(1)])


section \<open>When validation fails\<close>

lemma list_nonempty_iff: "xs \<noteq> [] \<longleftrightarrow> (\<exists>x. x \<in> set xs)"
  by (cases xs) auto

lemma closeReactions_fails_iff:
  assumes "0 < length rs" "length rs < 2 ^ 64" "distinct (species_names th)"
    and "species_ok th rs"
  shows "(\<exists>ds. closeReactions vo True (load th T0 rs) = ValidationFailed ds) \<longleftrightarrow>
           check_species (load th T0 rs) \<noteq> [] \<or>
           (\<exists>i j. i < j \<and> j < length rs \<and> identical_pair vo th rs i j) \<or>
           (\<exists>e < nElements th. \<exists>j < length rs. residual th (rs ! j) e \<noteq> 0)"
proof -
  have 1: "(\<exists>ds. closeReactions vo True (load th T0 rs) = ValidationFailed ds) \<longleftrightarrow>
           check_species (load th T0 rs) \<noteq> [] \<or> duplicates_report vo th rs \<noteq> [] \<or>
           conservation_report (load th T0 rs) \<noteq> []"
    using assms(1,2,4) by (auto simp: closeReactions_True_load validation_report_def)
  have 2: "duplicates_report vo th rs \<noteq> [] \<longleftrightarrow>
           (\<exists>i j. i < j \<and> j < length rs \<and> identical_pair vo th rs i j)"
    unfolding list_nonempty_iff duplicates_report_iff by blast
  have mr: "getReactionDelta (load th T0 rs)
              (map (\<lambda>s. elementMatrix th s e) [0..<nSpecies th])
              (replicate (length rs) 0) ! j = residual th (rs ! j) e"
    if "j < length rs" for j e
    using mass_is_residual [OF assms(3,4) that] .
  have "conservation_report (load th T0 rs) \<noteq> [] \<longleftrightarrow>
        (\<exists>e < nElements th. \<exists>j < length rs.
           getReactionDelta (load th T0 rs)
              (map (\<lambda>s. elementMatrix th s e) [0..<nSpecies th])
              (replicate (length rs) 0) ! j \<noteq> 0)"
    unfolding list_nonempty_iff conservation_report_iff by blast
  then have 3: "conservation_report (load th T0 rs) \<noteq> [] \<longleftrightarrow>
           (\<exists>e < nElements th. \<exists>j < length rs. residual th (rs ! j) e \<noteq> 0)"
    by (simp add: mr cong: conj_cong)
  show ?thesis using 1 2 3 by blast
qed

text \<open>
  Claim C5, at the input where the code departs from it. For a mechanism with at least
  one reaction whose reactant and product names resolve, \<open>closeReactions_fails_iff\<close>
  above is the claim: validation aborts the load exactly when the species check reports
  something (a third-body name), or two reactions are found identical, or some reaction
  has a nonzero residual for some element, the residual being compared exactly with
  zero. For the mechanism without reactions no check can fail, yet the duplicate pass,
  whose bound \<^verbatim>\<open>m_num_rxns - 1\<close> has wrapped around, reads \<^verbatim>\<open>m_reactions[0]\<close>: the load
  neither completes nor is aborted by validation.
\<close>

theorem empty_mechanism_out_of_bounds:
  "closeReactions vo True (load th_N 0 []) = OutOfBounds"
  by (simp add: closeReactions_True_empty nSpecies_def th_N_def)

section \<open>Net production rates\<close>

lemma sum_nth_snoc:
  "(\<Sum>j<length xs. (G j ((xs @ [x]) ! j) :: real)) = (\<Sum>j<length xs. G j (xs ! j))"
  by (rule sum.cong) (simp_all add: nth_append)

lemma load_reactants_sum:
  "(\<Sum>(j, sps)\<leftarrow>m_reactants (load th T0 rs). (F j sps :: real)) =
     (\<Sum>j<length rs. F j (speciesIndices th (reactants (rs ! j))))"
proof (induction rs rule: rev_induct)
  case Nil
  then show ?case by (simp add: load_Nil Kinetics_init_def)
next
  case (snoc x xs)
  show ?case
    using snoc sum_nth_snoc [where xs = xs and x = x and G = "\<lambda>j r. F j (speciesIndices th (reactants r))"]
    by (simp add: load_snoc addReaction_def Let_def Stoich_addReaction_def)
qed

lemma load_rev_prods_sum:
  "(\<Sum>(j, sps)\<leftarrow>m_rev_prods (load th T0 rs). (F j sps :: real)) =
     (\<Sum>j<length rs. if isReversible (rs ! j)
                      then F j (speciesIndices th (products (rs ! j))) else 0)"
proof (induction rs rule: rev_induct)
  case Nil
  then show ?case by (simp add: load_Nil Kinetics_init_def)
next
  case (snoc x xs)
  show ?case
    using snoc sum_nth_snoc [where xs = xs and x = x and G = "\<lambda>j r. if isReversible r
                      then F j (speciesIndices th (products r)) else 0"]
    by (simp add: load_snoc addReaction_def Let_def Stoich_addReaction_def)
qed

lemma load_irr_prods_sum:
  "(\<Sum>(j, sps)\<leftarrow>m_irr_prods (load th T0 rs). (F j sps :: real)) =
     (\<Sum>j<length rs. if isReversible (rs ! j)
                      then 0 else F j (speciesIndices th (products (rs ! j))))"
proof (induction rs rule: rev_induct)
  case Nil
  then show ?case by (simp add: load_Nil Kinetics_init_def)
next
  case (snoc x xs)
  show ?case
    using snoc sum_nth_snoc [where xs = xs and x = x and G = "\<lambda>j r. if isReversible r
                      then 0 else F j (speciesIndices th (products r))"]
    by (simp add: load_snoc addReaction_def Let_def Stoich_addReaction_def)
qed

lemma wdot_nth:
  assumes s: "sealed_state rs k" and i: "i < ns"
  shows "incrSpecies (m_irr_prods k) rop
           (incrSpecies (m_rev_prods k) rop
             (decrSpecies (m_reactants k) rop (replicate ns 0))) ! i =
         (\<Sum>j<length rs.
            (real (count_list (speciesIndices (m_thermo k) (products (rs ! j))) i)
             - real (count_list (speciesIndices (m_thermo k) (reactants (rs ! j))) i)) * rop ! j)"
proof -
  have m: "m_reactants k = m_reactants (load (m_thermo k) 0 rs)"
      "m_rev_prods k = m_rev_prods (load (m_thermo k) 0 rs)"
      "m_irr_prods k = m_irr_prods (load (m_thermo k) 0 rs)"
    using s by (simp_all add: sealed_state_def)
  have "incrSpecies (m_irr_prods k) rop
           (incrSpecies (m_rev_prods k) rop
             (decrSpecies (m_reactants k) rop (replicate ns 0))) ! i =
        (\<Sum>j<length rs. if isReversible (rs ! j) then 0
            else real (count_list (speciesIndices (m_thermo k) (products (rs ! j))) i) * rop ! j)
        + ((\<Sum>j<length rs. if isReversible (rs ! j)
            then real (count_list (speciesIndices (m_thermo k) (products (rs ! j))) i) * rop ! j
            else 0)
        - (\<Sum>j<length rs.
            real (count_list (speciesIndices (m_thermo k) (reactants (rs ! j))) i) * rop ! j))"
    using i
    by (simp add: nth_incrSpecies nth_decrSpecies)
       (simp add: m load_reactants_sum load_rev_prods_sum load_irr_prods_sum)
  also have "\<dots> = (\<Sum>j<length rs.
            (real (count_list (speciesIndices (m_thermo k) (products (rs ! j))) i)
             - real (count_list (speciesIndices (m_thermo k) (reactants (rs ! j))) i)) * rop ! j)"
    unfolding sum_subtractf [symmetric] sum.distrib [symmetric]
    by (rule sum.cong) (simp_all add: algebra_simps)
  finally show ?thesis .
qed

lemma netProductionRates_fst:
  "fst (netProductionRates RU T p_conc k) =
     map (\<lambda>i. incrSpecies (m_irr_prods k) (fst (netRatesOfProgress RU T (take (nSpecies (m_thermo k)) p_conc) k))
            (incrSpecies (m_rev_prods k) (fst (netRatesOfProgress RU T (take (nSpecies (m_thermo k)) p_conc) k))
              (decrSpecies (m_reactants k) (fst (netRatesOfProgress RU T (take (nSpecies (m_thermo k)) p_conc) k))
                 (replicate (nSpecies (m_thermo k)) 0))) ! i
            * speciesMw (m_thermo k) i)
         [0..<nSpecies (m_thermo k)]"
  using state_after_fields(2,5,6,7) [of NetRatesOfProgress RU T "take (nSpecies (m_thermo k)) p_conc" k]
  by (simp add: netProductionRates_def Let_def split_beta)

lemma sum_list_sum_swap:
  "(\<Sum>sp\<leftarrow>sps. \<Sum>e<n. (g sp e :: real)) = (\<Sum>e<n. \<Sum>sp\<leftarrow>sps. g sp e)"
  by (induction sps) (simp_all add: sum.distrib)

lemma conservation_passed:
  assumes "closeReactions vo True (load th T0 rs) = Sealed k0" "e < nElements th" "j < length rs"
  shows "(\<Sum>sp\<leftarrow>speciesIndices th (products (rs ! j)). elementMatrix th sp e) -
         (\<Sum>sp\<leftarrow>speciesIndices th (reactants (rs ! j)). elementMatrix th sp e) = 0"
proof -
  have ok: "species_ok th rs" using assms(1) by (rule validated_species_ok)
  have "check_conservation (load th T0 rs) = Some []"
    using closeReactions_True_Sealed [OF assms(1)] by simp
  then have "conservation_report (load th T0 rs) = []"
    using load_in_range [OF ok, of T0] by (simp add: check_conservation_in_range)
  then have "getReactionDelta (load th T0 rs) (map (\<lambda>s. elementMatrix th s e) [0..<nSpecies th])
           (replicate (length rs) 0) ! j = 0"
    using conservation_report_iff [of _ th T0 rs] assms(2,3)
    by (metis empty_iff list.set(1))
  then show ?thesis by (simp add: mass_resolved [OF ok assms(3)])
qed

lemma weight_sum:
  assumes mw: "\<forall>s < nSpecies th. speciesMw th s = (\<Sum>e<nElements th. elementMatrix th s e * am e)"
    and "\<forall>sp \<in> set sps. sp < nSpecies th"
  shows "(\<Sum>sp\<leftarrow>sps. speciesMw th sp) =
         (\<Sum>e<nElements th. (\<Sum>sp\<leftarrow>sps. elementMatrix th sp e) * am e)"
proof -
  have "map (speciesMw th) sps = map (\<lambda>sp. \<Sum>e<nElements th. elementMatrix th sp e * am e) sps"
    using assms by simp
  then have "(\<Sum>sp\<leftarrow>sps. speciesMw th sp) =
             (\<Sum>sp\<leftarrow>sps. \<Sum>e<nElements th. elementMatrix th sp e * am e)"
    by (rule arg_cong)
  also have "\<dots> = (\<Sum>e<nElements th. \<Sum>sp\<leftarrow>sps. elementMatrix th sp e * am e)"
    by (rule sum_list_sum_swap)
  also have "\<dots> = (\<Sum>e<nElements th. (\<Sum>sp\<leftarrow>sps. elementMatrix th sp e) * am e)"
    by (simp add: sum_list_mult_const)
  finally show ?thesis .
qed

lemma reaction_weight_zero:
  assumes v: "closeReactions vo True (load th T0 rs) = Sealed k0"
    and mw: "\<forall>s < nSpecies th. speciesMw th s = (\<Sum>e<nElements th. elementMatrix th s e * am e)"
    and j: "j < length rs"
  shows "(\<Sum>sp\<leftarrow>speciesIndices th (products (rs ! j)). speciesMw th sp) -
         (\<Sum>sp\<leftarrow>speciesIndices th (reactants (rs ! j)). speciesMw th sp) = 0"
proof -
  have ok: "species_ok th rs" using v by (rule validated_species_ok)
  have sub: "set (reactants (rs ! j)) \<subseteq> set (species_names th)"
            "set (products (rs ! j)) \<subseteq> set (species_names th)"
    using species_ok_nth [OF ok j] by simp_all
  have "(\<Sum>sp\<leftarrow>speciesIndices th (products (rs ! j)). speciesMw th sp) -
         (\<Sum>sp\<leftarrow>speciesIndices th (reactants (rs ! j)). speciesMw th sp) =
        (\<Sum>e<nElements th.
           ((\<Sum>sp\<leftarrow>speciesIndices th (products (rs ! j)). elementMatrix th sp e) -
            (\<Sum>sp\<leftarrow>speciesIndices th (reactants (rs ! j)). elementMatrix th sp e)) * am e)"
    by (simp add: weight_sum [OF mw speciesIndices_resolved(2) [OF sub(1)]]
        weight_sum [OF mw speciesIndices_resolved(2) [OF sub(2)]]
        sum_subtractf left_diff_distrib)
  also have "\<dots> = 0"
    using conservation_passed [OF v _ j] by simp
  finally show ?thesis .
qed

text \<open>
  Claim C1, as amended. \<open>netProductionRates\<close> already returns mass-basis rates: each
  mole-basis rate multiplied by the molecular weight of its species. For a sealed and
  validated mechanism, in any state the engine can reach and for every temperature and
  concentration vector, these mass-basis rates sum to zero, provided the molecular
  weight of each species is the sum over the elements of its atom count times the
  atomic mass \<open>am\<close> of the element. Validation supplies the element balance of every
  reaction, which is what the proof uses.
\<close>

theorem mass_is_conserved:
  assumes v: "closeReactions vo True (load th T0 rs) = Sealed k0"
    and k: "k = run RU evs k0"
    and mw: "\<forall>s < nSpecies th. speciesMw th s = (\<Sum>e<nElements th. elementMatrix th s e * am e)"
  shows "sum_list (fst (netProductionRates RU T p_conc k)) = 0"
proof -
  have s: "sealed_state rs k" using v k by (simp add: sealed_state_reachable)
  have ok: "species_ok th rs" using v by (rule validated_species_ok)
  have mix: "species_names (m_thermo k) = species_names th"
      "species_mw (m_thermo k) = species_mw th"
    using run_mixture [of RU evs k0] m_thermo_closeReactions [OF v] k by simp_all
  have ns: "nSpecies (m_thermo k) = nSpecies th" using mix by (simp add: nSpecies_def)
  have ix: "speciesIndices (m_thermo k) = speciesIndices th"
    using mix(1) by (rule speciesIndices_names)
  have smw: "speciesMw (m_thermo k) = speciesMw th"
    using mix(2) by (intro ext) (simp add: speciesMw_def)
  define rop where "rop = fst (netRatesOfProgress RU T (take (nSpecies th) p_conc) k)"
  define P where "P j = speciesIndices th (products (rs ! j))" for j
  define R where "R j = speciesIndices th (reactants (rs ! j))" for j
  have lt: "\<forall>sp \<in> set (P j). sp < nSpecies th" "\<forall>sp \<in> set (R j). sp < nSpecies th"
    if "j < length rs" for j
    unfolding P_def R_def
    using species_ok_nth [OF ok that] speciesIndices_resolved(2) [of _ th] by blast+
  have "sum_list (fst (netProductionRates RU T p_conc k)) =
        (\<Sum>i<nSpecies th.
           (\<Sum>j<length rs. (real (count_list (P j) i) - real (count_list (R j) i)) * rop ! j)
           * speciesMw th i)"
    unfolding netProductionRates_fst ns smw sum_list_upt_sum rop_def [symmetric]
    by (rule sum.cong) (simp_all add: wdot_nth [OF s] ix P_def R_def)
  also have "\<dots> = (\<Sum>i<nSpecies th. \<Sum>j<length rs.
           rop ! j * ((real (count_list (P j) i) - real (count_list (R j) i)) * speciesMw th i))"
    by (simp only: sum_distrib_right) (intro sum.cong refl, simp add: algebra_simps)
  also have "\<dots> = (\<Sum>j<length rs. \<Sum>i<nSpecies th.
           rop ! j * ((real (count_list (P j) i) - real (count_list (R j) i)) * speciesMw th i))"
    by (rule sum.swap)
  also have "\<dots> = (\<Sum>j<length rs. rop ! j *
           ((\<Sum>i<nSpecies th. real (count_list (P j) i) * speciesMw th i) -
            (\<Sum>i<nSpecies th. real (count_list (R j) i) * speciesMw th i)))"
    by (simp only: sum_subtractf [symmetric] sum_distrib_left)
       (intro sum.cong refl, simp add: algebra_simps)
  also have "\<dots> = (\<Sum>j<length rs. rop ! j *
           ((\<Sum>sp\<leftarrow>P j. speciesMw th sp) - (\<Sum>sp\<leftarrow>R j. speciesMw th sp)))"
    by (rule sum.cong) (simp_all add: count_sum [OF lt(1)] count_sum [OF lt(2)])
  also have "\<dots> = 0"
    using reaction_weight_zero [OF v mw] by (simp add: P_def R_def)
  finally show ?thesis .
qed


lemma th_N_sizes: "nSpecies th_N = 2" "nElements th_N = 1"
  by (simp_all add: nSpecies_def nElements_def th_N_def)

theorem mass_is_conserved_witness:
  "sum_list (fst (netProductionRates RU_ex 1000 [1, 0] k_N)) = 0"
proof -
  have 2: "k_N = run RU_ex [] k_N" by (simp add: run_Nil)
  have 3: "\<forall>s < nSpecies th_N.
      speciesMw th_N s = (\<Sum>e<nElements th_N. elementMatrix th_N s e * (\<lambda>e. 14) e)"
    by (simp add: th_N_sizes) (simp add: speciesMw_def elementMatrix_def th_N_def)
  from mass_is_conserved [OF closeReactions_N 2 3] show ?thesis .
qed

lemma seal_load_N: "k_N =
   \<lparr> m_num_rxns = 1, m_thermo = th_N, m_reactions = [rx_N],
     m_reactants = [(0, [0])], m_rev_prods = [(0, [1, 1])], m_irr_prods = [],
     m_thirdbodies = [], m_rates = [(0, \<lambda>T. 0)],
     m_dnu = [1], m_lnkf = [0], m_lnkeq = [0], m_ropf = [0], m_ropb = [0], m_rop = [0],
     mp_g = [0, 0], m_T_last = 0 \<rparr>"
  by (simp add: k_N_def seal_def load_N Let_def th_N_sizes getReactionDelta_def
      incrReactions_def decrReactions_def numeral_2_eq_2)

lemma rop_N: "fst (netRatesOfProgress RU_ex 1000 [1, 0] k_N) = [1]"
  by (simp add: netRatesOfProgress_def forwardRateCoefficients_def backwardRateCoefficients_def
      updateT_def seal_load_N Let_def lnForwardRateCoefficients_def multReactions_def
      multiplyThirdbodies_def incrReactions_def decrReactions_def)

lemma production_N: "fst (netProductionRates RU_ex 1000 [1, 0] k_N) = [- 28, 28]"
proof -
  have m: "m_thermo k_N = th_N" "m_reactants k_N = [(0, [0])]" "m_rev_prods k_N = [(0, [1, 1])]"
      "m_irr_prods k_N = []"
    by (simp_all add: seal_load_N)
  show ?thesis
    unfolding netProductionRates_fst m th_N_sizes
    by (simp add: rop_N incrSpecies_def decrSpecies_def speciesMw_def th_N_def
        numeral_2_eq_2 upt_rec)
qed

text \<open>
  The claim as first stated multiplies the mass-basis rates by the molecular weights
  once more. That sum is not zero: for the validated mechanism \<open>N2 = 2N\<close> with molecular
  weights 28 and 14, at concentrations 1 and 0, the rates are \<open>-28\<close> and \<open>28\<close>, and
  the weighted sum is \<open>-28 * 28 + 28 * 14 = -392\<close>.
\<close>

theorem weighted_sum_not_zero:
  "closeReactions unrounded_ops True (load th_N 0 [rx_N]) = Sealed k_N \<and>
   (\<Sum>s<nSpecies th_N. fst (netProductionRates RU_ex 1000 [1, 0] k_N) ! s * speciesMw th_N s)
     = - 392"
proof -
  have "(\<Sum>s<nSpecies th_N. fst (netProductionRates RU_ex 1000 [1, 0] k_N) ! s * speciesMw th_N s)
     = - 392"
    unfolding production_N th_N_sizes
    by (simp add: speciesMw_def th_N_def numeral_2_eq_2)
  with closeReactions_N show ?thesis by simp
qed

end
